theory Spec2Isabelle
  imports Main "HOL-Library.Char_ord" "HOL-Library.List_Lexorder" "HOL-Library.AList"
begin

section \<open>Python values\<close>

text \<open>
  The program is \<^verbatim>\<open>src/main.py\<close>, a Python script that imports a modlist into a
  Modrinth collection.  A Python \<^verbatim>\<open>str\<close> is a sequence of code points; it is modelled as
  a \<^typ>\<open>string\<close>, where a \<^typ>\<open>char\<close> stands for the code point of the same number, so
  the strings covered are those over U+0000..U+00FF (ASCII and the Latin-1 supplement).
  Values read from JSON files and HTTP bodies are \<open>json\<close> values; a Python \<^verbatim>\<open>dict\<close> keeps
  its items in insertion order and is an association list.  JSON numbers are integers.
\<close>

datatype json =
    JNull
  | JBool bool
  | JInt int
  | JStr string
  | JArr "json list"
  | JObj "(string \<times> json) list"

text \<open>
  The exceptions the program can meet.  \<open>SystemExit\<close> carries the exit code and a label
  that names the \<^verbatim>\<open>sys.exit\<close> call it comes from: after a configuration error
  (line 354), without collections in the local state (line 365), without any collection
  (line 247), on the operator's quit at the collection picker (line 262), after a modlist
  that does not load (line 379), on the operator's quit at the interactive resolver
  (line 134), and on a declined final confirmation (line 411).
\<close>

datatype exit_site =
    Config_error_exit
  | No_local_collections_exit
  | No_collections_exit
  | Picker_quit
  | Modlist_error_exit
  | Resolver_quit
  | Confirm_declined

datatype exn =
    ConfigError
  | FileNotFoundError
  | JSONDecodeError
  | ValueError
  | TypeError
  | KeyError
  | AttributeError
  | EOFError
  | RuntimeError
  | RequestException
  | SystemExit int exit_site

text \<open>\<^verbatim>\<open>except Exception\<close> catches everything but \<open>SystemExit\<close>.\<close>

fun is_Exception :: "exn \<Rightarrow> bool" where
  "is_Exception (SystemExit n s) = False"
| "is_Exception e = True"

text \<open>
  Library tables that are not part of the repository are parameters of the model:
  \<open>nfkc\<close> is \<^verbatim>\<open>unicodedata.normalize('NFKC', _)\<close>, \<open>bracketed_host_ok\<close> tells whether
  \<^verbatim>\<open>urllib.parse._check_bracketed_host\<close> accepts the text between \<^verbatim>\<open>[\<close> and \<^verbatim>\<open>]\<close>
  (it parses IP literals), and \<open>str_nonstr\<close> is the built-in \<^verbatim>\<open>str()\<close> on a value that
  is not a string.
\<close>

record pylib =
  nfkc :: "string \<Rightarrow> string"
  bracketed_host_ok :: "string \<Rightarrow> bool"
  str_nonstr :: "json \<Rightarrow> string"

section \<open>String operations\<close>

definition isascii_char :: "char \<Rightarrow> bool" where
  "isascii_char c = ((of_char c :: nat) < 128)"

definition str_isascii :: "string \<Rightarrow> bool" where
  "str_isascii s = list_all isascii_char s"

text \<open>\<^verbatim>\<open>c.isascii() and c.isalpha()\<close>\<close>

definition isascii_alpha :: "char \<Rightarrow> bool" where
  "isascii_alpha c = (let n = (of_char c :: nat) in (65 \<le> n \<and> n \<le> 90) \<or> (97 \<le> n \<and> n \<le> 122))"

text \<open>
  \<^verbatim>\<open>str.lower()\<close>: on U+0000..U+00FF the upper-case letters are A..Z and U+00C0..U+00DE
  without the multiplication sign U+00D7, and each maps to the code point 32 above.
\<close>

definition lower_char :: "char \<Rightarrow> char" where
  "lower_char c = (let n = (of_char c :: nat) in
     if (65 \<le> n \<and> n \<le> 90) \<or> (192 \<le> n \<and> n \<le> 222 \<and> n \<noteq> 215)
     then char_of (n + 32) else c)"

definition str_lower :: "string \<Rightarrow> string" where
  "str_lower s = map lower_char s"

text \<open>
  \<^verbatim>\<open>str.strip()\<close> removes leading and trailing white space: U+0009..U+000D,
  U+001C..U+0020, U+0085 and U+00A0.
\<close>

definition isspace_char :: "char \<Rightarrow> bool" where
  "isspace_char c = (let n = (of_char c :: nat) in
     (9 \<le> n \<and> n \<le> 13) \<or> (28 \<le> n \<and> n \<le> 32) \<or> n = 133 \<or> n = 160)"

definition str_strip :: "string \<Rightarrow> string" where
  "str_strip s = rev (dropWhile isspace_char (rev (dropWhile isspace_char s)))"

text \<open>\<^verbatim>\<open>s.split(sep)\<close> for a one-character separator; the result is never empty.\<close>

fun str_split :: "char \<Rightarrow> string \<Rightarrow> string list" where
  "str_split sep [] = [[]]"
| "str_split sep (c # cs) =
     (if c = sep then [] # str_split sep cs
      else (case str_split sep cs of
              p # ps \<Rightarrow> (c # p) # ps
            | [] \<Rightarrow> [[c]]))"

text \<open>
  For a character \<open>c\<close> that occurs in \<open>s\<close>, \<open>before c s\<close> is \<^verbatim>\<open>s[:s.find(c)]\<close> and
  \<open>after c s\<close> is \<^verbatim>\<open>s[s.find(c)+1:]\<close>.
\<close>

definition before :: "char \<Rightarrow> string \<Rightarrow> string" where
  "before c s = takeWhile (\<lambda>x. x \<noteq> c) s"

definition after :: "char \<Rightarrow> string \<Rightarrow> string" where
  "after c s = drop 1 (dropWhile (\<lambda>x. x \<noteq> c) s)"

section \<open>The URL parser of the standard library\<close>

text \<open>
  \<^verbatim>\<open>extract_modrinth_project_id\<close> calls \<^verbatim>\<open>urllib.parse.urlparse\<close>.  The definitions of
  this section follow \<^verbatim>\<open>urllib/parse.py\<close> of CPython 3.11 for a \<^verbatim>\<open>str\<close> argument with
  the default \<^verbatim>\<open>scheme=''\<close> and \<^verbatim>\<open>allow_fragments=True\<close>.
\<close>

record SplitResult =
  scheme :: string
  netloc :: string
  path :: string
  query :: string
  fragment :: string

record ParseResult = SplitResult +
  params :: string

definition scheme_chars :: string where
  "scheme_chars = ''abcdefghijklmnopqrstuvwxyzABCDEFGHIJKLMNOPQRSTUVWXYZ0123456789+-.''"

definition uses_params :: "string list" where
  "uses_params = ['''', ''ftp'', ''hdl'', ''prospero'', ''http'', ''imap'',
                  ''https'', ''shttp'', ''rtsp'', ''rtsps'', ''rtspu'', ''sip'',
                  ''sips'', ''mms'', ''sftp'', ''tel'']"

text \<open>\<^verbatim>\<open>_WHATWG_C0_CONTROL_OR_SPACE\<close>: the code points up to U+0020.\<close>

definition c0_control_or_space :: "char \<Rightarrow> bool" where
  "c0_control_or_space c = ((of_char c :: nat) \<le> 32)"

text \<open>\<^verbatim>\<open>_UNSAFE_URL_BYTES_TO_REMOVE\<close>: tab, carriage return, line feed.\<close>

definition unsafe_url_bytes :: string where
  "unsafe_url_bytes = [CHR 0x09, CHR 0x0D, CHR 0x0A]"

text \<open>
  The scheme: \<^verbatim>\<open>i = url.find(':')\<close>; when \<^verbatim>\<open>i > 0\<close>, the first character is an ASCII
  letter and every character of \<^verbatim>\<open>url[:i]\<close> is in \<^verbatim>\<open>scheme_chars\<close>, the scheme is
  \<^verbatim>\<open>url[:i].lower()\<close> and the rest is \<^verbatim>\<open>url[i+1:]\<close>.
\<close>

definition split_scheme :: "string \<Rightarrow> string \<times> string" where
  "split_scheme url =
     (if CHR '':'' \<in> set url \<and> before CHR '':'' url \<noteq> [] \<and> isascii_alpha (hd url)
         \<and> list_all (\<lambda>c. c \<in> set scheme_chars) (before CHR '':'' url)
      then (str_lower (before CHR '':'' url), after CHR '':'' url)
      else ('''', url))"

text \<open>\<^verbatim>\<open>_splitnetloc(url, 2)\<close>: the authority ends at the first of \<^verbatim>\<open>/ ? #\<close>.\<close>

definition netloc_delim :: "char \<Rightarrow> bool" where
  "netloc_delim c = (c \<in> set ''/?#'')"

definition splitnetloc :: "string \<Rightarrow> string \<times> string" where
  "splitnetloc url =
     (takeWhile (\<lambda>c. \<not> netloc_delim c) (drop 2 url),
      dropWhile (\<lambda>c. \<not> netloc_delim c) (drop 2 url))"

text \<open>\<^verbatim>\<open>netloc.partition('[')[2].partition(']')[0]\<close>\<close>

definition bracketed_host :: "string \<Rightarrow> string" where
  "bracketed_host nl = before CHR '']'' (after CHR ''['' nl)"

text \<open>\<^verbatim>\<open>_checknetloc\<close>; the result says whether it raises \<^verbatim>\<open>ValueError\<close>.\<close>

definition checknetloc_raises :: "pylib \<Rightarrow> string \<Rightarrow> bool" where
  "checknetloc_raises L nl =
     (if nl = [] \<or> str_isascii nl then False
      else let n = filter (\<lambda>c. c \<notin> set ''@:#?'') nl;
               netloc2 = nfkc L n
           in if n = netloc2 then False
              else list_ex (\<lambda>c. c \<in> set netloc2) ''/?#@:'')"

text \<open>
  The first steps of \<^verbatim>\<open>urlsplit\<close>: \<^verbatim>\<open>url.lstrip(_WHATWG_C0_CONTROL_OR_SPACE)\<close>, then
  every unsafe byte is removed.
\<close>

definition url_clean :: "string \<Rightarrow> string" where
  "url_clean url = filter (\<lambda>c. c \<notin> set unsafe_url_bytes) (dropWhile c0_control_or_space url)"

definition urlsplit :: "pylib \<Rightarrow> string \<Rightarrow> exn + SplitResult" where
  "urlsplit L url0 =
     (let url2 = url_clean url0;
          (sch, url3) = split_scheme url2;
          has_netloc = (take 2 url3 = ''//'');
          (nl, url4) = (if has_netloc then splitnetloc url3 else ('''', url3))
      in if has_netloc \<and> ((CHR ''['' \<in> set nl \<and> CHR '']'' \<notin> set nl)
                          \<or> (CHR '']'' \<in> set nl \<and> CHR ''['' \<notin> set nl))
         then Inl ValueError
         else if has_netloc \<and> CHR ''['' \<in> set nl \<and> CHR '']'' \<in> set nl
                 \<and> \<not> bracketed_host_ok L (bracketed_host nl)
         then Inl ValueError
         else
           let (url5, frag) = (if CHR ''#'' \<in> set url4
                               then (before CHR ''#'' url4, after CHR ''#'' url4)
                               else (url4, ''''));
               (url6, qry) = (if CHR ''?'' \<in> set url5
                              then (before CHR ''?'' url5, after CHR ''?'' url5)
                              else (url5, ''''))
           in if checknetloc_raises L nl then Inl ValueError
              else Inr \<lparr>scheme = sch, netloc = nl, path = url6, query = qry, fragment = frag\<rparr>)"

text \<open>
  \<^verbatim>\<open>_splitparams\<close>: the parameters start at the first \<^verbatim>\<open>;\<close> of the last path segment
  (\<^verbatim>\<open>url.find(';', url.rfind('/'))\<close>), or at the first \<^verbatim>\<open>;\<close> when there is no \<^verbatim>\<open>/\<close>.
\<close>

definition last_segment :: "string \<Rightarrow> string" where
  "last_segment url = rev (takeWhile (\<lambda>c. c \<noteq> CHR ''/'') (rev url))"

definition splitparams :: "string \<Rightarrow> string \<times> string" where
  "splitparams url =
     (if CHR ''/'' \<in> set url then
        (if CHR '';'' \<in> set (last_segment url)
         then (take (length url - length (last_segment url)) url @ before CHR '';'' (last_segment url),
               after CHR '';'' (last_segment url))
         else (url, ''''))
      else (before CHR '';'' url, after CHR '';'' url))"

definition urlparse :: "pylib \<Rightarrow> string \<Rightarrow> exn + ParseResult" where
  "urlparse L url =
     (case urlsplit L url of
        Inl e \<Rightarrow> Inl e
      | Inr r \<Rightarrow>
          (if scheme r \<in> set uses_params \<and> CHR '';'' \<in> set (path r)
           then Inr \<lparr>scheme = scheme r, netloc = netloc r, path = fst (splitparams (path r)),
                     query = query r, fragment = fragment r, params = snd (splitparams (path r))\<rparr>
           else Inr \<lparr>scheme = scheme r, netloc = netloc r, path = path r,
                     query = query r, fragment = fragment r, params = ''''\<rparr>))"

text \<open>
  The \<^verbatim>\<open>hostname\<close> attribute of a parse result (\<^verbatim>\<open>_hostinfo\<close>): the authority without
  user information and port, lower-cased up to a zone identifier; \<open>None\<close> when empty.
\<close>

definition rpartition_at :: "string \<Rightarrow> string" where
  "rpartition_at nl = rev (takeWhile (\<lambda>c. c \<noteq> CHR ''@'') (rev nl))"

definition hostname :: "ParseResult \<Rightarrow> string option" where
  "hostname p =
     (let hostinfo = rpartition_at (netloc p);
          h = (if CHR ''['' \<in> set hostinfo
               then before CHR '']'' (after CHR ''['' hostinfo)
               else before CHR '':'' hostinfo)
      in if h = [] then None
         else Some (str_lower (before CHR ''%'' h) @ dropWhile (\<lambda>c. c \<noteq> CHR ''%'') h))"

section \<open>The reference normalizer\<close>

text \<open>
  \<^verbatim>\<open>extract_modrinth_project_id\<close> (lines 92 to 112).  The result is \<open>Inl e\<close> when the
  exception \<open>e\<close> leaves the function, \<open>Inr None\<close> for Python's \<^verbatim>\<open>None\<close>.
\<close>

definition path_parts :: "string \<Rightarrow> string list" where
  "path_parts p = filter (\<lambda>s. s \<noteq> []) (str_split CHR ''/'' p)"

definition extract_modrinth_project_id :: "pylib \<Rightarrow> string \<Rightarrow> exn + string option" where
  "extract_modrinth_project_id L url =
     (case urlparse L url of
        Inl e \<Rightarrow> (if is_Exception e then Inr None else Inl e)
      | Inr parsed \<Rightarrow>
          (let host = str_lower (netloc parsed) in
           if host \<notin> {''modrinth.com'', ''www.modrinth.com''} then Inr None
           else let parts = path_parts (path parsed) in
             if length parts \<ge> 2 \<and> str_lower (parts ! 0) = ''mod'' then Inr (Some (parts ! 1))
             else Inr None))"

text \<open>A library instance for evaluation: no normalisation, no bracketed host accepted.\<close>

definition lib0 :: pylib where
  "lib0 = \<lparr>nfkc = (\<lambda>s. s), bracketed_host_ok = (\<lambda>h. False), str_nonstr = (\<lambda>v. ''?'')\<rparr>"

section \<open>Dynamic values\<close>

text \<open>Truth value of a JSON value, as \<^verbatim>\<open>if v:\<close> tests it.\<close>

fun truthy :: "json \<Rightarrow> bool" where
  "truthy JNull = False"
| "truthy (JBool b) = b"
| "truthy (JInt n) = (n \<noteq> 0)"
| "truthy (JStr s) = (s \<noteq> [])"
| "truthy (JArr xs) = (xs \<noteq> [])"
| "truthy (JObj kvs) = (kvs \<noteq> [])"

text \<open>\<^verbatim>\<open>a or b\<close>\<close>

definition py_or :: "json \<Rightarrow> json \<Rightarrow> json" where
  "py_or a b = (if truthy a then a else b)"

text \<open>\<^verbatim>\<open>str(v)\<close>\<close>

definition py_str :: "pylib \<Rightarrow> json \<Rightarrow> string" where
  "py_str L v = (case v of JStr s \<Rightarrow> s | _ \<Rightarrow> str_nonstr L v)"

text \<open>\<^verbatim>\<open>obj.get(key, default)\<close>: only a \<^verbatim>\<open>dict\<close> has the method.\<close>

definition dict_get :: "json \<Rightarrow> string \<Rightarrow> json \<Rightarrow> exn + json" where
  "dict_get obj k d =
     (case obj of
        JObj kvs \<Rightarrow> Inr (case map_of kvs k of Some v \<Rightarrow> v | None \<Rightarrow> d)
      | _ \<Rightarrow> Inl AttributeError)"

text \<open>\<^verbatim>\<open>obj[key]\<close> for a string key.\<close>

definition getitem :: "json \<Rightarrow> string \<Rightarrow> exn + json" where
  "getitem obj k =
     (case obj of
        JObj kvs \<Rightarrow> (case map_of kvs k of Some v \<Rightarrow> Inr v | None \<Rightarrow> Inl KeyError)
      | _ \<Rightarrow> Inl TypeError)"

text \<open>\<^verbatim>\<open>obj[key] = v\<close> for a string key; the result is the updated object.\<close>

definition setitem :: "json \<Rightarrow> string \<Rightarrow> json \<Rightarrow> exn + json" where
  "setitem obj k v =
     (case obj of
        JObj kvs \<Rightarrow> Inr (JObj (AList.update k v kvs))
      | _ \<Rightarrow> Inl TypeError)"

text \<open>\<^verbatim>\<open>k in s\<close> for two strings.\<close>

fun is_substr :: "string \<Rightarrow> string \<Rightarrow> bool" where
  "is_substr k [] = (k = [])"
| "is_substr k (c # cs) = (take (length k) (c # cs) = k \<or> is_substr k cs)"

text \<open>\<^verbatim>\<open>k in obj\<close> for a string \<open>k\<close>.\<close>

definition py_in :: "string \<Rightarrow> json \<Rightarrow> exn + bool" where
  "py_in k obj =
     (case obj of
        JObj kvs \<Rightarrow> Inr (k \<in> set (map fst kvs))
      | JArr xs \<Rightarrow> Inr (JStr k \<in> set xs)
      | JStr s \<Rightarrow> Inr (is_substr k s)
      | _ \<Rightarrow> Inl TypeError)"

text \<open>The elements a \<^verbatim>\<open>for\<close> loop visits.\<close>

definition py_iter :: "json \<Rightarrow> exn + json list" where
  "py_iter v =
     (case v of
        JArr xs \<Rightarrow> Inr xs
      | JStr s \<Rightarrow> Inr (map (\<lambda>c. JStr [c]) s)
      | JObj kvs \<Rightarrow> Inr (map (\<lambda>kv. JStr (fst kv)) kvs)
      | _ \<Rightarrow> Inl TypeError)"

text \<open>
  \<^verbatim>\<open>int(s)\<close> for a string without surrounding white space: an optional sign, then decimal
  digits, where single underscores may stand between digits.  \<open>None\<close> is \<^verbatim>\<open>ValueError\<close>,
  which is also raised for more digits than \<^verbatim>\<open>sys.get_int_max_str_digits()\<close>, 4300 unless the
  interpreter is told otherwise.
\<close>

definition is_digit :: "char \<Rightarrow> bool" where
  "is_digit c = (c \<in> set ''0123456789'')"

definition digit_val :: "char \<Rightarrow> int" where
  "digit_val c = int (of_char c) - 48"

fun digits_ok :: "string \<Rightarrow> bool" where
  "digits_ok [] = False"
| "digits_ok [c] = is_digit c"
| "digits_ok (c # d # cs) =
     (if is_digit c then
        (if d = CHR ''_'' then digits_ok cs else digits_ok (d # cs))
      else False)"

definition digits_value :: "string \<Rightarrow> int" where
  "digits_value s = foldl (\<lambda>a c. 10 * a + digit_val c) 0 (filter is_digit s)"

definition int_max_str_digits :: nat where
  "int_max_str_digits = 4300"

definition py_int :: "string \<Rightarrow> int option" where
  "py_int s =
     (if length (filter is_digit s) > int_max_str_digits then None
      else case s of
        [] \<Rightarrow> None
      | c # cs \<Rightarrow>
          if c = CHR ''-'' then (if digits_ok cs then Some (- digits_value cs) else None)
          else if c = CHR ''+'' then (if digits_ok cs then Some (digits_value cs) else None)
          else if digits_ok s then Some (digits_value s) else None)"

section \<open>The outside world\<close>

text \<open>
  Console output is kept as the text of the format string with the values put into it;
  \<open>Prompt\<close> is the text written by \<^verbatim>\<open>input\<close>.
\<close>

datatype arg = AJ json | AS string | AN int | AE exn

datatype printed =
    Out string "arg list"
  | Err string "arg list"
  | Prompt string

text \<open>An HTTP request: URL, headers, and for \<^verbatim>\<open>PATCH\<close> the JSON body.\<close>

datatype request =
    GET string "(string \<times> json) list"
  | PATCH string "(string \<times> json) list" json

fun is_PATCH :: "request \<Rightarrow> bool" where
  "is_PATCH (PATCH u h b) = True"
| "is_PATCH (GET u h) = False"

text \<open>A response; \<open>json_body\<close> is \<open>None\<close> when \<^verbatim>\<open>resp.json()\<close> raises.\<close>

record response =
  status_code :: int
  resp_text :: string
  json_body :: "json option"

text \<open>
  A path names no file, a file that \<^verbatim>\<open>json.load\<close> rejects, or a file with JSON content.
\<close>

datatype file_state = NoFile | Garbage | Content json

text \<open>
  The environment answers requests (\<open>None\<close>: the request raises) and tells the time.
  The world holds what a run changes: the lines the operator will type, the console
  output, the requests issued, and the files by path.
\<close>

record env =
  http :: "request \<Rightarrow> response option"
  now_iso :: string

record world =
  stdin :: "string list"
  out :: "printed list"
  http_log :: "request list"
  files :: "string \<Rightarrow> file_state"

definition print :: "string \<Rightarrow> arg list \<Rightarrow> world \<Rightarrow> world" where
  "print t as w = w\<lparr>out := out w @ [Out t as]\<rparr>"

definition print_err :: "string \<Rightarrow> arg list \<Rightarrow> world \<Rightarrow> world" where
  "print_err t as w = w\<lparr>out := out w @ [Err t as]\<rparr>"

text \<open>\<^verbatim>\<open>input(prompt)\<close>; at the end of the input it raises \<^verbatim>\<open>EOFError\<close>.\<close>

definition py_input :: "string \<Rightarrow> world \<Rightarrow> (exn + string) \<times> world" where
  "py_input prompt w =
     (case stdin w of
        [] \<Rightarrow> (Inl EOFError, w\<lparr>out := out w @ [Prompt prompt]\<rparr>)
      | l # ls \<Rightarrow> (Inr l, w\<lparr>stdin := ls, out := out w @ [Prompt prompt]\<rparr>))"

definition requests_get ::
  "env \<Rightarrow> string \<Rightarrow> (string \<times> json) list \<Rightarrow> world \<Rightarrow> (exn + response) \<times> world" where
  "requests_get E url headers w =
     (case http E (GET url headers) of
        None \<Rightarrow> (Inl RequestException, w\<lparr>http_log := http_log w @ [GET url headers]\<rparr>)
      | Some r \<Rightarrow> (Inr r, w\<lparr>http_log := http_log w @ [GET url headers]\<rparr>))"

definition requests_patch ::
  "env \<Rightarrow> string \<Rightarrow> (string \<times> json) list \<Rightarrow> json \<Rightarrow> world \<Rightarrow> (exn + response) \<times> world" where
  "requests_patch E url headers body w =
     (case http E (PATCH url headers body) of
        None \<Rightarrow> (Inl RequestException, w\<lparr>http_log := http_log w @ [PATCH url headers body]\<rparr>)
      | Some r \<Rightarrow> (Inr r, w\<lparr>http_log := http_log w @ [PATCH url headers body]\<rparr>))"

section \<open>Configuration and modlist\<close>

definition API_BASE :: string where
  "API_BASE = ''https://api.modrinth.com/v3''"

definition DEFAULT_CONFIG_PATH :: string where
  "DEFAULT_CONFIG_PATH = ''config.json''"

definition DEFAULT_MODLIST_PATH :: string where
  "DEFAULT_MODLIST_PATH = ''modlist.json''"

definition STATE_PATH :: string where
  "STATE_PATH = ''modrinth_state.json''"

text \<open>\<^verbatim>\<open>STATE_PATH.with_suffix(".tmp")\<close>\<close>

definition STATE_TMP :: string where
  "STATE_TMP = ''modrinth_state.tmp''"

text \<open>
  The comprehension of \<^verbatim>\<open>load_config\<close> (line 57):
  \<^verbatim>\<open>[k for k in (...) if k not in cfg or not cfg[k]]\<close>.
\<close>

fun missing_fields :: "json \<Rightarrow> string list \<Rightarrow> exn + string list" where
  "missing_fields cfg [] = Inr []"
| "missing_fields cfg (k # ks) =
     (case py_in k cfg of
        Inl e \<Rightarrow> Inl e
      | Inr present \<Rightarrow>
          (if \<not> present then
             (case missing_fields cfg ks of Inl e \<Rightarrow> Inl e | Inr m \<Rightarrow> Inr (k # m))
           else
             (case getitem cfg k of
                Inl e \<Rightarrow> Inl e
              | Inr v \<Rightarrow>
                  (case missing_fields cfg ks of
                     Inl e \<Rightarrow> Inl e
                   | Inr m \<Rightarrow> Inr (if \<not> truthy v then k # m else m)))))"

text \<open>\<^verbatim>\<open>load_config\<close> (lines 49 to 66)\<close>

definition load_config :: "string \<Rightarrow> world \<Rightarrow> exn + json" where
  "load_config p w =
     (case files w p of
        NoFile \<Rightarrow> Inl ConfigError
      | Garbage \<Rightarrow> Inl JSONDecodeError
      | Content cfg \<Rightarrow>
          (case missing_fields cfg [''token'', ''user_agent'', ''user_id''] of
             Inl e \<Rightarrow> Inl e
           | Inr missing \<Rightarrow> if missing \<noteq> [] then Inl ConfigError else Inr cfg))"

text \<open>\<^verbatim>\<open>base_headers\<close> (lines 69 to 75)\<close>

definition base_headers :: "json \<Rightarrow> exn + (string \<times> json) list" where
  "base_headers cfg =
     (case getitem cfg ''token'' of
        Inl e \<Rightarrow> Inl e
      | Inr token \<Rightarrow>
          (case getitem cfg ''user_agent'' of
             Inl e \<Rightarrow> Inl e
           | Inr agent \<Rightarrow>
               Inr [(''Authorization'', token), (''User-Agent'', agent),
                    (''Accept'', JStr ''application/json''),
                    (''Content-Type'', JStr ''application/json'')]))"

text \<open>\<^verbatim>\<open>load_modlist\<close> (lines 78 to 89); the result is the list of entries.\<close>

definition load_modlist :: "string \<Rightarrow> world \<Rightarrow> exn + json list" where
  "load_modlist p w =
     (case files w p of
        NoFile \<Rightarrow> Inl FileNotFoundError
      | Garbage \<Rightarrow> Inl JSONDecodeError
      | Content data \<Rightarrow> (case data of JArr entries \<Rightarrow> Inr entries | _ \<Rightarrow> Inl ValueError))"


section \<open>The interactive resolver\<close>

text \<open>
  The call \<^verbatim>\<open>extract_modrinth_project_id(url)\<close> with a value from the modlist: for a
  value that is not a string \<^verbatim>\<open>urlparse\<close> raises inside the \<^verbatim>\<open>try\<close>, so the result
  is \<^verbatim>\<open>None\<close>.
\<close>

definition extract_from_value :: "pylib \<Rightarrow> json \<Rightarrow> exn + string option" where
  "extract_from_value L v =
     (case v of JStr s \<Rightarrow> extract_modrinth_project_id L s | _ \<Rightarrow> Inr None)"

text \<open>
  The \<^verbatim>\<open>while True\<close> loop of \<^verbatim>\<open>prompt_for_modrinth_url\<close> (lines 130 to 145).  Every
  round reads a line, so the loop ends when the input does.  \<^verbatim>\<open>if not pid\<close> holds for
  \<^verbatim>\<open>None\<close> and for the empty string.
\<close>

function prompt_loop :: "pylib \<Rightarrow> world \<Rightarrow> (exn + string option) \<times> world" where
  "prompt_loop L w =
     (case py_input ''  [u] enter Modrinth URL  |  [s] skip this mod  |  [q] abort > '' w of
        (Inl e, w1) \<Rightarrow> (Inl e, w1)
      | (Inr line, w1) \<Rightarrow>
          (if str_lower (str_strip line) \<in> {''q'', ''quit''} then
             (Inl (SystemExit 1 Resolver_quit), print ''Aborting by user request.'' [] w1)
           else if str_lower (str_strip line) \<in> {''s'', ''skip''} then
             (Inr None, print ''  -> Skipping this mod.'' [] w1)
           else if str_lower (str_strip line) \<in> {''u'', ''url''} then
             (case py_input ''  Paste Modrinth URL (https://modrinth.com/mod/...) > '' w1 of
                (Inl e, w2) \<Rightarrow> (Inl e, w2)
              | (Inr new_url, w2) \<Rightarrow>
                  (case extract_modrinth_project_id L (str_strip new_url) of
                     Inl e \<Rightarrow> (Inl e, w2)
                   | Inr None \<Rightarrow>
                       prompt_loop L
                         (print ''  That doesn't look like a valid Modrinth mod URL. Try again.'' [] w2)
                   | Inr (Some pid) \<Rightarrow>
                       (if pid = [] then
                          prompt_loop L
                            (print ''  That doesn't look like a valid Modrinth mod URL. Try again.'' [] w2)
                        else
                          (Inr (Some pid), print ''  -> Using project ID: {}'' [AS pid] w2))))
           else prompt_loop L w1))"
  by pat_completeness auto
termination
  by (relation "measure (\<lambda>(L, w). length (stdin w))")
     (auto simp: py_input_def print_def split: list.splits)

declare prompt_loop.simps [simp del]

text \<open>\<^verbatim>\<open>prompt_for_modrinth_url\<close> (lines 115 to 145)\<close>

definition prompt_for_modrinth_url ::
  "pylib \<Rightarrow> json \<Rightarrow> world \<Rightarrow> (exn + string option) \<times> world" where
  "prompt_for_modrinth_url L entry w =
     (case dict_get entry ''name'' (JStr ''<no name>'') of
        Inl e \<Rightarrow> (Inl e, w)
      | Inr name \<Rightarrow>
          (case dict_get entry ''url'' JNull of
             Inl e \<Rightarrow> (Inl e, w)
           | Inr old_url \<Rightarrow>
               prompt_loop L
                 ((if truthy old_url then print ''  Current URL: {}'' [AJ old_url]
                   else print ''  Current URL: <missing>'' [])
                  (print ''Entry needs attention: {}'' [AJ name] (print [] [] w)))))"

section \<open>Collecting the project identifiers\<close>

text \<open>
  One round of the \<^verbatim>\<open>for\<close> loop of \<^verbatim>\<open>collect_project_ids_from_modlist\<close> (lines 157 to
  171), from the identifiers and the skip count so far to the next ones.
\<close>

definition collect_step ::
  "pylib \<Rightarrow> json \<Rightarrow> string list \<Rightarrow> nat \<Rightarrow> world \<Rightarrow> (exn + string list \<times> nat) \<times> world" where
  "collect_step L entry project_ids skipped w =
     (case dict_get entry ''url'' JNull of
        Inl e \<Rightarrow> (Inl e, w)
      | Inr url \<Rightarrow>
          (case (if truthy url then extract_from_value L url else Inr None) of
             Inl e \<Rightarrow> (Inl e, w)
           | Inr pid0 \<Rightarrow>
               (case (if pid0 = None \<or> pid0 = Some [] then prompt_for_modrinth_url L entry w
                      else (Inr pid0, w)) of
                  (Inl e, w1) \<Rightarrow> (Inl e, w1)
                | (Inr None, w1) \<Rightarrow> (Inr (project_ids, skipped + 1), w1)
                | (Inr (Some pid), w1) \<Rightarrow>
                    (if pid \<noteq> [] then
                       (if pid \<notin> set project_ids
                        then (Inr (project_ids @ [pid], skipped), w1)
                        else (Inr (project_ids, skipped), w1))
                     else (Inr (project_ids, skipped + 1), w1)))))"

fun collect_loop ::
  "pylib \<Rightarrow> json list \<Rightarrow> string list \<Rightarrow> nat \<Rightarrow> world \<Rightarrow> (exn + string list \<times> nat) \<times> world" where
  "collect_loop L [] project_ids skipped w = (Inr (project_ids, skipped), w)"
| "collect_loop L (entry # entries) project_ids skipped w =
     (case collect_step L entry project_ids skipped w of
        (Inl e, w1) \<Rightarrow> (Inl e, w1)
      | (Inr (project_ids1, skipped1), w1) \<Rightarrow> collect_loop L entries project_ids1 skipped1 w1)"

text \<open>\<^verbatim>\<open>collect_project_ids_from_modlist\<close> (lines 148 to 173)\<close>

definition collect_project_ids_from_modlist ::
  "pylib \<Rightarrow> json list \<Rightarrow> world \<Rightarrow> (exn + string list \<times> nat) \<times> world" where
  "collect_project_ids_from_modlist L modlist w = collect_loop L modlist [] 0 w"

section \<open>The local state file and the collection list\<close>

text \<open>\<^verbatim>\<open>fetch_collections\<close> (lines 176 to 189)\<close>

definition fetch_collections :: "pylib \<Rightarrow> env \<Rightarrow> json \<Rightarrow> world \<Rightarrow> (exn + json list) \<times> world" where
  "fetch_collections L E cfg w =
     (case getitem cfg ''user_id'' of
        Inl e \<Rightarrow> (Inl e, w)
      | Inr uid \<Rightarrow>
          (case base_headers cfg of
             Inl e \<Rightarrow> (Inl e, w)
           | Inr headers \<Rightarrow>
               (case requests_get E (API_BASE @ ''/user/'' @ py_str L uid @ ''/collections'') headers w of
                  (Inl e, w1) \<Rightarrow> (Inl e, w1)
                | (Inr resp, w1) \<Rightarrow>
                    (if status_code resp \<noteq> 200 then (Inl RuntimeError, w1)
                     else (case json_body resp of
                             None \<Rightarrow> (Inl JSONDecodeError, w1)
                           | Some (JArr data) \<Rightarrow> (Inr data, w1)
                           | Some _ \<Rightarrow> (Inl RuntimeError, w1))))))"

text \<open>\<^verbatim>\<open>load_state\<close> (lines 192 to 200)\<close>

definition load_state :: "world \<Rightarrow> json" where
  "load_state w =
     (case files w STATE_PATH of
        NoFile \<Rightarrow> JObj []
      | Garbage \<Rightarrow> JObj []
      | Content state \<Rightarrow> state)"

text \<open>
  \<^verbatim>\<open>save_state\<close> (lines 203 to 207): the state is written to the temporary path, which
  then replaces the state file.  Both steps are taken to succeed: an \<^verbatim>\<open>OSError\<close> of the
  file system is no part of the model.
\<close>

definition save_state :: "json \<Rightarrow> world \<Rightarrow> world" where
  "save_state state w =
     w\<lparr>files := (files w)(STATE_TMP := NoFile, STATE_PATH := Content state)\<rparr>"

text \<open>\<^verbatim>\<open>sync_collections_to_state\<close> (lines 210 to 226)\<close>

definition sync_collections_to_state ::
  "pylib \<Rightarrow> env \<Rightarrow> json \<Rightarrow> world \<Rightarrow> (exn + json list) \<times> world" where
  "sync_collections_to_state L E cfg w =
     (case fetch_collections L E cfg w of
        (Inl e, w1) \<Rightarrow> (Inl e, w1)
      | (Inr collections, w1) \<Rightarrow>
          (case getitem cfg ''user_id'' of
             Inl e \<Rightarrow> (Inl e, w1)
           | Inr uid \<Rightarrow>
               (case setitem (load_state w1) ''user_id'' uid of
                  Inl e \<Rightarrow> (Inl e, w1)
                | Inr state1 \<Rightarrow>
                    (case setitem state1 ''collections'' (JArr collections) of
                       Inl e \<Rightarrow> (Inl e, w1)
                     | Inr state2 \<Rightarrow>
                         (case setitem state2 ''synced_at'' (JStr (now_iso E)) of
                            Inl e \<Rightarrow> (Inl e, w1)
                          | Inr state3 \<Rightarrow>
                              (Inr collections,
                               print ''[info] Synced {} collection(s) into {} (user_id={}).''
                                 [AN (int (length collections)), AS STATE_PATH, AJ uid]
                                 (save_state state3 w1)))))))"

section \<open>Choosing the collection\<close>

text \<open>
  \<^verbatim>\<open>for col in collections: if col.get("id") == wanted: ...\<close>: the first collection with
  the wanted identifier, if the loop meets one.
\<close>

fun find_by_id :: "json list \<Rightarrow> string \<Rightarrow> exn + json option" where
  "find_by_id [] wanted = Inr None"
| "find_by_id (col # cols) wanted =
     (case dict_get col ''id'' JNull of
        Inl e \<Rightarrow> Inl e
      | Inr cid \<Rightarrow> if cid = JStr wanted then Inr (Some col) else find_by_id cols wanted)"

text \<open>The listing loop of \<^verbatim>\<open>choose_collection\<close> (lines 250 to 256).\<close>

fun list_collections :: "json list \<Rightarrow> int \<Rightarrow> world \<Rightarrow> (exn + unit) \<times> world" where
  "list_collections [] idx w = (Inr (), w)"
| "list_collections (col # cols) idx w =
     (case dict_get col ''id'' JNull of
        Inl e \<Rightarrow> (Inl e, w)
      | Inr cid \<Rightarrow>
          (case dict_get col ''name'' JNull of
             Inl e \<Rightarrow> (Inl e, w)
           | Inr name \<Rightarrow>
               (case dict_get col ''description'' JNull of
                  Inl e \<Rightarrow> (Inl e, w)
                | Inr desc \<Rightarrow>
                    list_collections cols (idx + 1)
                      ((if truthy (py_or desc (JStr [])) then print ''      {}'' [AJ (py_or desc (JStr []))]
                        else (\<lambda>w. w))
                       (print ''  [{}] {}  (id={})'' [AN idx, AJ (py_or name (JStr ''<no name>'')), AJ cid] w)))))"

text \<open>The \<^verbatim>\<open>while True\<close> loop of \<^verbatim>\<open>choose_collection\<close> (lines 258 to 282).\<close>

function choose_loop :: "json list \<Rightarrow> world \<Rightarrow> (exn + json) \<times> world" where
  "choose_loop cols w =
     (case py_input ''Select collection by number (or paste collection ID, or 'q' to quit) > '' w of
        (Inl e, w1) \<Rightarrow> (Inl e, w1)
      | (Inr line, w1) \<Rightarrow>
          (if str_lower (str_strip line) \<in> {''q'', ''quit''} then
             (Inl (SystemExit 1 Picker_quit), print ''Aborting by user request.'' [] w1)
           else
             (case find_by_id cols (str_strip line) of
                Inl e \<Rightarrow> (Inl e, w1)
              | Inr (Some col) \<Rightarrow>
                  (case dict_get col ''name'' JNull of
                     Inl e \<Rightarrow> (Inl e, w1)
                   | Inr name \<Rightarrow>
                       (Inr (JStr (str_strip line)),
                        print ''[info] Using collection {!r} ({})'' [AJ name, AS (str_strip line)] w1))
              | Inr None \<Rightarrow>
                  (case py_int (str_strip line) of
                     None \<Rightarrow>
                       choose_loop cols
                         (print ''Please enter a valid number or a collection ID.'' [] w1)
                   | Some idx \<Rightarrow>
                       (if 1 \<le> idx \<and> idx \<le> int (length cols) then
                          (case dict_get (cols ! nat (idx - 1)) ''name'' JNull of
                             Inl e \<Rightarrow> (Inl e, w1)
                           | Inr name \<Rightarrow>
                               (case dict_get (cols ! nat (idx - 1)) ''id'' JNull of
                                  Inl e \<Rightarrow> (Inl e, w1)
                                | Inr cid \<Rightarrow>
                                    (Inr cid,
                                     print ''[info] Using collection {!r} ({})'' [AJ name, AJ cid] w1)))
                        else
                          choose_loop cols
                            (print ''Please enter a number between 1 and {}.''
                               [AN (int (length cols))] w1))))))"
  by pat_completeness auto
termination
  by (relation "measure (\<lambda>(cols, w). length (stdin w))")
     (auto simp: py_input_def print_def split: list.splits)

declare choose_loop.simps [simp del]

text \<open>
  \<^verbatim>\<open>choose_collection\<close> (lines 229 to 282).  The result is a JSON value: a collection
  chosen by number gives whatever its \<^verbatim>\<open>id\<close> field holds.  First the branch for an
  identifier given on the command line (lines 235 to 242).
\<close>

definition choose_explicit :: "json \<Rightarrow> string \<Rightarrow> world \<Rightarrow> (exn + json) \<times> world" where
  "choose_explicit collections explicit_id w =
     (case py_iter collections of
        Inl e \<Rightarrow> (Inl e, w)
      | Inr cols \<Rightarrow>
          (case find_by_id cols explicit_id of
             Inl e \<Rightarrow> (Inl e, w)
           | Inr None \<Rightarrow> (Inl RuntimeError, w)
           | Inr (Some col) \<Rightarrow>
               (case dict_get col ''name'' JNull of
                  Inl e \<Rightarrow> (Inl e, w)
                | Inr name \<Rightarrow>
                    (Inr (JStr explicit_id),
                     print ''[info] Using collection {!r} ({}) from --collection-id''
                       [AJ name, AS explicit_id] w))))"

text \<open>The interactive choice (lines 244 to 282).\<close>

definition choose_interactive :: "json \<Rightarrow> world \<Rightarrow> (exn + json) \<times> world" where
  "choose_interactive collections w =
     (if \<not> truthy collections then
        (Inl (SystemExit 1 No_collections_exit),
         print ''Create one in the Modrinth UI, then run this script again.'' []
           (print ''You don't have any collections yet.'' [] w))
      else
        (case py_iter collections of
           Inl e \<Rightarrow> (Inl e, print (CHR 0x0A # ''Your collections:'') [] w)
         | Inr cols \<Rightarrow>
             (case list_collections cols 1 (print (CHR 0x0A # ''Your collections:'') [] w) of
                (Inl e, w1) \<Rightarrow> (Inl e, w1)
              | (Inr u, w1) \<Rightarrow> choose_loop cols w1)))"

text \<open>\<^verbatim>\<open>if explicit_id\<close> holds for a string that is not empty.\<close>

definition choose_collection ::
  "json \<Rightarrow> string option \<Rightarrow> world \<Rightarrow> (exn + json) \<times> world" where
  "choose_collection collections explicit_id w =
     (case explicit_id of
        None \<Rightarrow> choose_interactive collections w
      | Some wanted \<Rightarrow>
          if wanted \<noteq> [] then choose_explicit collections wanted w
          else choose_interactive collections w)"

section \<open>Reading the collection, merging, updating\<close>

text \<open>\<^verbatim>\<open>fetch_collection_details\<close> (lines 285 to 292)\<close>

definition fetch_collection_details ::
  "pylib \<Rightarrow> env \<Rightarrow> json \<Rightarrow> json \<Rightarrow> world \<Rightarrow> (exn + json) \<times> world" where
  "fetch_collection_details L E cfg collection_id w =
     (case base_headers cfg of
        Inl e \<Rightarrow> (Inl e, w)
      | Inr headers \<Rightarrow>
          (case requests_get E (API_BASE @ ''/collection/'' @ py_str L collection_id) headers w of
             (Inl e, w1) \<Rightarrow> (Inl e, w1)
           | (Inr resp, w1) \<Rightarrow>
               (if status_code resp \<noteq> 200 then (Inl RuntimeError, w1)
                else (case json_body resp of
                        None \<Rightarrow> (Inl JSONDecodeError, w1)
                      | Some coll \<Rightarrow> (Inr coll, w1)))))"

text \<open>
  Lines 391 to 394 of \<^verbatim>\<open>main\<close>: the members of the collection as fetched, or the empty
  list, with a warning, when the field is not a list.
\<close>

definition existing_projects_of :: "json \<Rightarrow> world \<Rightarrow> (exn + json list) \<times> world" where
  "existing_projects_of coll w =
     (case dict_get coll ''projects'' JNull of
        Inl e \<Rightarrow> (Inl e, w)
      | Inr v \<Rightarrow>
          (case py_or v (JArr []) of
             JArr existing_projects \<Rightarrow> (Inr existing_projects, w)
           | _ \<Rightarrow>
               (Inr [],
                print ''[warn] Unexpected 'projects' field format in collection; treating as empty.'' [] w)))"

text \<open>
  Lines 396 to 401 of \<^verbatim>\<open>main\<close>, the merge: the arguments are the strings of the existing
  members and the identifiers from the modlist; the result is \<^verbatim>\<open>final_set\<close>, which is a
  sorted list, and \<^verbatim>\<open>added_count\<close>.
\<close>

definition merge_projects :: "string list \<Rightarrow> string list \<Rightarrow> string list \<times> int" where
  "merge_projects existing project_ids_from_modlist =
     (let existing_set = set existing;
          to_add_set = set project_ids_from_modlist;
          final_set = sorted_list_of_set (existing_set \<union> to_add_set);
          added_count = int (length final_set) - int (card existing_set)
      in (final_set, added_count))"

text \<open>\<^verbatim>\<open>patch_collection_projects\<close> (lines 295 to 321)\<close>

definition patch_collection_projects ::
  "pylib \<Rightarrow> env \<Rightarrow> json \<Rightarrow> json \<Rightarrow> string list \<Rightarrow> bool \<Rightarrow> world \<Rightarrow> (exn + unit) \<times> world" where
  "patch_collection_projects L E cfg collection_id project_ids dry w =
     (let payload = JObj [(''new_projects'', JArr (map JStr project_ids))];
          w0 = print ''[info] PATCH payload for collection {}: {}'' [AJ collection_id, AJ payload] w
      in if dry then (Inr (), print ''[dry-run] Skipping PATCH request.'' [] w0)
         else
           (case base_headers cfg of
              Inl e \<Rightarrow> (Inl e, w0)
            | Inr headers \<Rightarrow>
                (case requests_patch E (API_BASE @ ''/collection/'' @ py_str L collection_id)
                        headers payload w0 of
                   (Inl e, w1) \<Rightarrow> (Inl e, w1)
                 | (Inr resp, w1) \<Rightarrow>
                     (if status_code resp \<noteq> 204 then (Inl RuntimeError, w1)
                      else (Inr (), print ''[ok] Collection updated successfully.'' [] w1)))))"

section \<open>The main program\<close>

text \<open>The parsed command line.\<close>

record args =
  config :: string
  modlist :: string
  collection_id :: "string option"
  dry_run :: bool

text \<open>Lines 350 to 354: the configuration, or exit 1 on \<^verbatim>\<open>ConfigError\<close>.\<close>

definition main_config :: "args \<Rightarrow> world \<Rightarrow> (exn + json) \<times> world" where
  "main_config a w =
     (case load_config (config a) w of
        Inl e \<Rightarrow>
          (if e = ConfigError
           then (Inl (SystemExit 1 Config_error_exit), print_err ''Config error: {}'' [AE e] w)
           else (Inl e, w))
      | Inr cfg \<Rightarrow> (Inr cfg, w))"

text \<open>Lines 357 to 370: the collections from the API, or else from the local state.\<close>

definition main_collections :: "pylib \<Rightarrow> env \<Rightarrow> json \<Rightarrow> world \<Rightarrow> (exn + json) \<times> world" where
  "main_collections L E cfg w =
     (case sync_collections_to_state L E cfg w of
        (Inr collections, w1) \<Rightarrow> (Inr (JArr collections), w1)
      | (Inl e, w1) \<Rightarrow>
          (if is_Exception e then
             (case dict_get (load_state w1) ''collections'' JNull of
                Inl e2 \<Rightarrow>
                  (Inl e2, print ''[warn] Failed to sync collections from API: {}'' [AE e] w1)
              | Inr c \<Rightarrow>
                  (if \<not> truthy (py_or c (JArr [])) then
                     (Inl (SystemExit 1 No_local_collections_exit),
                      print ''No collections in local state either; cannot continue.'' []
                        (print ''[warn] Failed to sync collections from API: {}'' [AE e] w1))
                   else
                     (Inr (py_or c (JArr [])),
                      print ''[info] Falling back to collections from {} (snapshot may be outdated).''
                        [AS STATE_PATH]
                        (print ''[warn] Failed to sync collections from API: {}'' [AE e] w1))))
           else (Inl e, w1)))"

text \<open>Lines 375 to 387: the modlist and the identifiers collected from it.\<close>

definition main_modlist :: "pylib \<Rightarrow> args \<Rightarrow> world \<Rightarrow> (exn + string list \<times> nat) \<times> world" where
  "main_modlist L a w =
     (case load_modlist (modlist a) w of
        Inl e \<Rightarrow>
          (if is_Exception e
           then (Inl (SystemExit 1 Modlist_error_exit),
                 print_err ''Failed to load modlist: {}'' [AE e] w)
           else (Inl e, w))
      | Inr entries \<Rightarrow>
          (case collect_project_ids_from_modlist L entries
                  (print ''[info] Loaded {} entries from {}''
                     [AN (int (length entries)), AS (modlist a)] w) of
             (Inl e, w1) \<Rightarrow> (Inl e, w1)
           | (Inr (project_ids, skipped), w1) \<Rightarrow>
               (Inr (project_ids, skipped),
                (if skipped \<noteq> 0
                 then print ''[info] Skipped {} mod(s) (no Modrinth URL and you chose to skip).''
                        [AN (int skipped)]
                 else (\<lambda>w. w))
                (print ''[info] Collected {} unique Modrinth project(s) from modlist.''
                   [AN (int (length project_ids))] w1))))"

text \<open>Lines 390 to 406: the collection as fetched, the merge, and the summary.\<close>

definition main_merge ::
  "pylib \<Rightarrow> env \<Rightarrow> json \<Rightarrow> json \<Rightarrow> string list \<Rightarrow> nat \<Rightarrow> world \<Rightarrow> (exn + string list) \<times> world" where
  "main_merge L E cfg cid project_ids skipped w =
     (case fetch_collection_details L E cfg cid w of
        (Inl e, w1) \<Rightarrow> (Inl e, w1)
      | (Inr coll, w1) \<Rightarrow>
          (case existing_projects_of coll w1 of
             (Inl e, w2) \<Rightarrow> (Inl e, w2)
           | (Inr existing_projects, w2) \<Rightarrow>
               (case merge_projects (map (py_str L) existing_projects) project_ids of
                  (final_set, added_count) \<Rightarrow>
                    (Inr final_set,
                     print ''[summary] To add: {} new project(s). Skipped: {}. Final collection size will be {}.''
                       [AN added_count, AN (int skipped), AN (int (length final_set))]
                       (print [] [] w2)))))"

text \<open>Lines 408 to 413: the final confirmation.\<close>

definition main_confirm :: "json \<Rightarrow> string list \<Rightarrow> world \<Rightarrow> (exn + unit) \<times> world" where
  "main_confirm cid final_set w =
     (case py_input ''Proceed with updating the collection? [y/N] > '' w of
        (Inl e, w1) \<Rightarrow> (Inl e, w1)
      | (Inr line, w1) \<Rightarrow>
          (if str_lower (str_strip line) \<notin> {''y'', ''yes''}
           then (Inl (SystemExit 0 Confirm_declined), print ''Aborted by user.'' [] w1)
           else (Inr (),
                 print ''[info] Patching collection {} with {} total project(s)...''
                   [AJ cid, AN (int (length final_set))] w1)))"

text \<open>
  \<^verbatim>\<open>main\<close> up to the call of \<^verbatim>\<open>patch_collection_projects\<close> (lines 350 to 413): the
  result is the configuration, the collection chosen and the final list.
\<close>

definition main_prepare ::
  "pylib \<Rightarrow> env \<Rightarrow> args \<Rightarrow> world \<Rightarrow> (exn + json \<times> json \<times> string list) \<times> world" where
  "main_prepare L E a w =
     (case main_config a w of
        (Inl e, w1) \<Rightarrow> (Inl e, w1)
      | (Inr cfg, w1) \<Rightarrow>
          (case main_collections L E cfg w1 of
             (Inl e, w2) \<Rightarrow> (Inl e, w2)
           | (Inr collections, w2) \<Rightarrow>
               (case choose_collection collections (collection_id a) w2 of
                  (Inl e, w3) \<Rightarrow> (Inl e, w3)
                | (Inr cid, w3) \<Rightarrow>
                    (case main_modlist L a w3 of
                       (Inl e, w4) \<Rightarrow> (Inl e, w4)
                     | (Inr (project_ids, skipped), w4) \<Rightarrow>
                         (case main_merge L E cfg cid project_ids skipped w4 of
                            (Inl e, w5) \<Rightarrow> (Inl e, w5)
                          | (Inr final_set, w5) \<Rightarrow>
                              (case main_confirm cid final_set w5 of
                                 (Inl e, w6) \<Rightarrow> (Inl e, w6)
                               | (Inr u, w6) \<Rightarrow> (Inr (cfg, cid, final_set), w6)))))))"

text \<open>\<^verbatim>\<open>main\<close> (lines 324 to 414), from the parsed arguments on.\<close>

definition main :: "pylib \<Rightarrow> env \<Rightarrow> args \<Rightarrow> world \<Rightarrow> (exn + unit) \<times> world" where
  "main L E a w =
     (case main_prepare L E a w of
        (Inl e, w1) \<Rightarrow> (Inl e, w1)
      | (Inr (cfg, cid, final_set), w1) \<Rightarrow>
          patch_collection_projects L E cfg cid final_set (dry_run a) w1)"

text \<open>
  The exit status of the process: 0 when \<^verbatim>\<open>main\<close> returns, the code of \<^verbatim>\<open>sys.exit\<close>,
  and 1 for any other exception, which nothing catches.
\<close>

fun exit_status :: "exn + unit \<Rightarrow> int" where
  "exit_status (Inr u) = 0"
| "exit_status (Inl (SystemExit n s)) = n"
| "exit_status (Inl e) = 1"

text \<open>The requests of a log that change the remote collection.\<close>

definition patch_calls :: "world \<Rightarrow> request list" where
  "patch_calls w = filter is_PATCH (http_log w)"

section \<open>A run for evaluation\<close>

text \<open>
  A configuration, a modlist whose first and third entry name the same project, one
  remote collection \<open>C1\<close> whose \<^verbatim>\<open>projects\<close> field is given, and a state file with a key
  of its own.  The entries of the modlist file and the operator's lines are the arguments
  of \<open>example_world\<close>.
\<close>

definition example_cfg :: json where
  "example_cfg =
     JObj [(''token'', JStr ''mrp_x''), (''user_agent'', JStr ''me/tool''),
           (''user_id'', JStr ''U1'')]"

definition example_modlist :: "json list" where
  "example_modlist =
     [JObj [(''name'', JStr ''A''), (''url'', JStr ''https://modrinth.com/mod/b'')],
      JObj [(''name'', JStr ''B''), (''url'', JStr ''https://modrinth.com/mod/a'')],
      JObj [(''name'', JStr ''C''), (''url'', JStr ''https://www.modrinth.com/mod/b/version/1'')]]"

definition example_http :: "json \<Rightarrow> request \<Rightarrow> response option" where
  "example_http projects req =
     (case req of
        GET url h \<Rightarrow>
          if url = ''https://api.modrinth.com/v3/user/U1/collections''
          then Some \<lparr>status_code = 200, resp_text = [],
                     json_body = Some (JArr [JObj [(''id'', JStr ''C1''), (''name'', JStr ''Mods'')]])\<rparr>
          else if url = ''https://api.modrinth.com/v3/collection/C1''
          then Some \<lparr>status_code = 200, resp_text = [],
                     json_body = Some (JObj [(''id'', JStr ''C1''), (''projects'', projects)])\<rparr>
          else None
      | PATCH url h b \<Rightarrow> Some \<lparr>status_code = 204, resp_text = [], json_body = None\<rparr>)"

definition example_env :: "json \<Rightarrow> env" where
  "example_env projects = \<lparr>http = example_http projects, now_iso = ''2025-11-07T15:24:09+00:00''\<rparr>"

definition example_files :: "json list \<Rightarrow> string \<Rightarrow> file_state" where
  "example_files entries p =
     (if p = ''config.json'' then Content example_cfg
      else if p = ''modlist.json'' then Content (JArr entries)
      else if p = ''modrinth_state.json''
      then Content (JObj [(''note'', JStr ''mine''), (''user_id'', JStr ''old'')])
      else NoFile)"

definition example_world :: "json list \<Rightarrow> string list \<Rightarrow> world" where
  "example_world entries lines =
     \<lparr>stdin = lines, out = [], http_log = [], files = example_files entries\<rparr>"

definition example_args :: "bool \<Rightarrow> args" where
  "example_args d =
     \<lparr>config = DEFAULT_CONFIG_PATH, modlist = DEFAULT_MODLIST_PATH, collection_id = None,
      dry_run = d\<rparr>"

text \<open>A modlist whose only entry has no Modrinth URL, so that the resolver asks.\<close>

definition unresolved_modlist :: "json list" where
  "unresolved_modlist =
     [JObj [(''name'', JStr ''X''), (''url'', JStr ''https://curseforge.com/x'')]]"

section \<open>Properties of the reference normalizer\<close>

lemma urlsplit_raises: "urlsplit L url = Inl e \<Longrightarrow> e = ValueError"
  by (auto simp: urlsplit_def Let_def split: prod.splits if_splits)

lemma urlparse_raises: "urlparse L url = Inl e \<Longrightarrow> e = ValueError"
  by (auto simp: urlparse_def split: sum.splits if_splits dest: urlsplit_raises)

text \<open>
  What the normalizer computes from a parse result.  The comparison is on the network
  location (\<open>netloc\<close>: everything between \<^verbatim>\<open>//\<close> and the next \<^verbatim>\<open>/\<close>, \<^verbatim>\<open>?\<close> or \<^verbatim>\<open>#\<close>, so with any
  user information and port).  When it is, lower-cased, \<^verbatim>\<open>modrinth.com\<close> or
  \<^verbatim>\<open>www.modrinth.com\<close>, and the non-empty segments of the path begin with a segment that
  lower-cases to \<^verbatim>\<open>mod\<close> followed by a second segment, the result is that second segment
  as it stands, whatever follows it.  For every other network location the result is
  \<open>None\<close>, and so it is for every path whose first non-empty segment is not the
  \<^verbatim>\<open>mod\<close> tag, or that has fewer than two non-empty segments.
\<close>

lemma extract_by_netloc:
  assumes "urlparse L url = Inr p"
  shows "(str_lower (netloc p) \<in> {''modrinth.com'', ''www.modrinth.com''} \<and>
          path_parts (path p) = a # b # rest \<and> str_lower a = ''mod''
            \<longrightarrow> extract_modrinth_project_id L url = Inr (Some b)) \<and>
         (str_lower (netloc p) \<notin> {''modrinth.com'', ''www.modrinth.com''}
            \<longrightarrow> extract_modrinth_project_id L url = Inr None) \<and>
         ((\<forall>a rest. path_parts (path p) = a # rest \<longrightarrow> str_lower a \<noteq> ''mod'')
            \<longrightarrow> extract_modrinth_project_id L url = Inr None) \<and>
         (length (path_parts (path p)) < 2
            \<longrightarrow> extract_modrinth_project_id L url = Inr None)"
  using assms
  by (cases "path_parts (path p)")
     (auto simp: extract_modrinth_project_id_def Let_def)

lemma extract_by_netloc_examples:
  "extract_modrinth_project_id lib0 ''https://WWW.Modrinth.com/Mod/zV5r3pPn/version/1.0.0''
     = Inr (Some ''zV5r3pPn'') \<and>
   extract_modrinth_project_id lib0 ''https://curseforge.com/mod/zV5r3pPn'' = Inr None \<and>
   extract_modrinth_project_id lib0 ''https://modrinth.com/plugin/zV5r3pPn'' = Inr None \<and>
   extract_modrinth_project_id lib0 ''https://modrinth.com/mod/'' = Inr None"
proof -
  let ?p4 = "\<lparr>scheme = ''https'', netloc = ''modrinth.com'',
           path = ''/mod/'', query = [], fragment = [], params = []\<rparr>"
  have p4: "urlparse lib0 ''https://modrinth.com/mod/'' = Inr ?p4"
    by code_simp
  have s4: "length (path_parts (path ?p4)) < 2"
    by code_simp
  have r4: "extract_modrinth_project_id lib0 ''https://modrinth.com/mod/'' = Inr None"
    using extract_by_netloc [OF p4] s4
    by blast
  let ?p1 = "\<lparr>scheme = ''https'', netloc = ''WWW.Modrinth.com'',
           path = ''/Mod/zV5r3pPn/version/1.0.0'', query = [], fragment = [], params = []\<rparr>"
  let ?p2 = "\<lparr>scheme = ''https'', netloc = ''curseforge.com'',
           path = ''/mod/zV5r3pPn'', query = [], fragment = [], params = []\<rparr>"
  let ?p3 = "\<lparr>scheme = ''https'', netloc = ''modrinth.com'',
           path = ''/plugin/zV5r3pPn'', query = [], fragment = [], params = []\<rparr>"
  have p1: "urlparse lib0 ''https://WWW.Modrinth.com/Mod/zV5r3pPn/version/1.0.0'' = Inr ?p1"
    by code_simp
  have h1: "str_lower (netloc ?p1) \<in> {''modrinth.com'', ''www.modrinth.com''}"
    by code_simp
  have s1: "path_parts (path ?p1) = ''Mod'' # ''zV5r3pPn'' # [''version'', ''1.0.0'']"
    by code_simp
  have m1: "str_lower ''Mod'' = ''mod''"
    by code_simp
  have p2: "urlparse lib0 ''https://curseforge.com/mod/zV5r3pPn'' = Inr ?p2"
    by code_simp
  have h2: "str_lower (netloc ?p2) \<notin> {''modrinth.com'', ''www.modrinth.com''}"
    by code_simp
  have p3: "urlparse lib0 ''https://modrinth.com/plugin/zV5r3pPn'' = Inr ?p3"
    by code_simp
  have s3: "path_parts (path ?p3) = [''plugin'', ''zV5r3pPn'']"
    by code_simp
  have m3: "str_lower ''plugin'' \<noteq> ''mod''"
    by code_simp
  have r1: "extract_modrinth_project_id lib0 ''https://WWW.Modrinth.com/Mod/zV5r3pPn/version/1.0.0''
     = Inr (Some ''zV5r3pPn'')"
    using extract_by_netloc [OF p1, of "''Mod''" "''zV5r3pPn''" "[''version'', ''1.0.0'']"] h1 s1 m1
    by blast
  have r2: "extract_modrinth_project_id lib0 ''https://curseforge.com/mod/zV5r3pPn'' = Inr None"
    using extract_by_netloc [OF p2] h2
    by blast
  have "\<forall>a rest. path_parts (path ?p3) = a # rest \<longrightarrow> str_lower a \<noteq> ''mod''"
    unfolding s3 using m3 by simp
  then have r3: "extract_modrinth_project_id lib0 ''https://modrinth.com/plugin/zV5r3pPn'' = Inr None"
    using extract_by_netloc [OF p3]
    by blast
  from r1 r2 r3 r4 show ?thesis
    by blast
qed

subsection \<open>URLs of the canonical shape\<close>

text \<open>Lower-casing moves a code point below 128 by 0 or by 32.\<close>

lemma lower_char_cases:
  "lower_char c = c \<or>
   (lower_char c = char_of ((of_char c :: nat) + 32) \<and>
    ((65 \<le> (of_char c :: nat) \<and> (of_char c :: nat) \<le> 90) \<or>
     (192 \<le> (of_char c :: nat) \<and> (of_char c :: nat) \<le> 222)))"
  unfolding lower_char_def Let_def
  by (cases "65 \<le> (of_char c :: nat) \<and> (of_char c :: nat) \<le> 90 \<or>
          192 \<le> (of_char c :: nat) \<and> (of_char c :: nat) \<le> 222 \<and> (of_char c :: nat) \<noteq> 215")
     (simp_all only: if_True if_False, blast+)

lemma of_char_char_of_plus:
  "n \<le> 222 \<Longrightarrow> (of_char (char_of (n + 32 :: nat)) :: nat) = n + 32"
  by simp

lemma of_char_lower_range:
  assumes "lower_char c = d" and "(of_char d :: nat) < 128"
  shows "(of_char c :: nat) = of_char d \<or>
         ((of_char c :: nat) + 32 = of_char d \<and> 65 \<le> (of_char c :: nat) \<and> (of_char c :: nat) \<le> 90)"
proof -
  define n where "n = (of_char c :: nat)"
  define m where "m = (of_char d :: nat)"
  have m: "m < 128"
    using assms(2) by (simp add: m_def)
  from lower_char_cases [of c]
  have "d = c \<or> (d = char_of (n + 32) \<and> ((65 \<le> n \<and> n \<le> 90) \<or> (192 \<le> n \<and> n \<le> 222)))"
    unfolding assms(1) n_def .
  then show ?thesis
  proof (elim disjE conjE)
    assume "d = c"
    then show ?thesis by simp
  next
    assume d: "d = char_of (n + 32)" and r: "65 \<le> n" "n \<le> 90"
    from r have "n \<le> 222" by simp
    then have "m = n + 32"
      unfolding m_def d by (rule of_char_char_of_plus)
    with r show ?thesis
      unfolding m_def n_def by simp
  next
    assume d: "d = char_of (n + 32)" and r: "192 \<le> n" "n \<le> 222"
    from r(2) have "m = n + 32"
      unfolding m_def d by (rule of_char_char_of_plus)
    with r m show ?thesis
      by simp
  qed
qed

lemma before_notin: "c \<notin> set s \<Longrightarrow> before c s = s"
  by (auto simp: before_def)

lemma before_append: "c \<notin> set p \<Longrightarrow> before c (p @ x) = p @ before c x"
  by (induction p) (auto simp: before_def)

lemma after_append: "c \<notin> set p \<Longrightarrow> after c (p @ c # x) = x"
  by (induction p) (auto simp: after_def)

lemma before_Cons_same: "before c (c # x) = []"
  by (simp add: before_def)

text \<open>Letters and the dot: the characters of a host that lower-cases to the canonical one.\<close>

lemma plain_lower_char:
  assumes "lower_char c = d" and "isascii_alpha d \<or> d = CHR ''.''"
  shows "isascii_alpha c \<or> c = CHR ''.''"
proof -
  have m: "(of_char d :: nat) < 128"
    using assms(2) by (auto simp: isascii_alpha_def Let_def)
  from of_char_lower_range [OF assms(1) m] show ?thesis
  proof (elim disjE conjE)
    assume "(of_char c :: nat) = of_char d"
    then have "c = d" by simp
    with assms(2) show ?thesis by simp
  next
    assume "65 \<le> (of_char c :: nat)" "(of_char c :: nat) \<le> 90"
    then show ?thesis
      by (simp add: isascii_alpha_def Let_def)
  qed
qed

lemma plain_str_lower:
  "str_lower s = t \<Longrightarrow> list_all (\<lambda>d. isascii_alpha d \<or> d = CHR ''.'') t \<Longrightarrow>
     list_all (\<lambda>c. isascii_alpha c \<or> c = CHR ''.'') s"
proof (induction s arbitrary: t)
  case Nil
  then show ?case by simp
next
  case (Cons c s)
  then obtain d t' where t: "t = d # t'" "lower_char c = d" "str_lower s = t'"
    by (auto simp: str_lower_def)
  with Cons.prems(2) have "isascii_alpha d \<or> d = CHR ''.''"
    and "list_all (\<lambda>d. isascii_alpha d \<or> d = CHR ''.'') t'"
    by simp_all
  with t Cons.IH [of t'] plain_lower_char [of c d] show ?case
    by simp
qed

lemma plain_not_special:
  "isascii_alpha c \<or> c = CHR ''.'' \<Longrightarrow>
     c \<notin> set ''/?#[]:@;%'' \<and> c \<notin> set unsafe_url_bytes \<and> isascii_char c \<and>
     \<not> c0_control_or_space c \<and> \<not> netloc_delim c"
  by (auto simp: isascii_alpha_def isascii_char_def c0_control_or_space_def netloc_delim_def
      unsafe_url_bytes_def Let_def)

lemma scheme_char_not_special:
  "c \<in> set scheme_chars \<Longrightarrow> c \<noteq> CHR '':'' \<and> c \<notin> set unsafe_url_bytes"
  by (auto simp: scheme_chars_def unsafe_url_bytes_def)

lemma alpha_not_c0: "isascii_alpha c \<Longrightarrow> \<not> c0_control_or_space c"
  by (auto simp: isascii_alpha_def c0_control_or_space_def Let_def)

lemma canonical_plain:
  "str_lower h \<in> {''modrinth.com'', ''www.modrinth.com''} \<Longrightarrow>
     list_all (\<lambda>c. isascii_alpha c \<or> c = CHR ''.'') h"
proof -
  have a: "list_all (\<lambda>d. isascii_alpha d \<or> d = CHR ''.'') ''modrinth.com''"
    by (simp add: isascii_alpha_def Let_def)
  have b: "list_all (\<lambda>d. isascii_alpha d \<or> d = CHR ''.'') ''www.modrinth.com''"
    by (simp add: isascii_alpha_def Let_def)
  assume "str_lower h \<in> {''modrinth.com'', ''www.modrinth.com''}"
  then have "str_lower h = ''modrinth.com'' \<or> str_lower h = ''www.modrinth.com''"
    by blast
  then show ?thesis
    using plain_str_lower [OF _ a] plain_str_lower [OF _ b] by blast
qed

lemma mod_plain:
  "str_lower t = ''mod'' \<Longrightarrow> list_all (\<lambda>c. isascii_alpha c \<or> c = CHR ''.'') t \<and> t \<noteq> []"
proof -
  have a: "list_all (\<lambda>d. isascii_alpha d \<or> d = CHR ''.'') ''mod''"
    by (simp add: isascii_alpha_def Let_def)
  assume s: "str_lower t = ''mod''"
  then have "t \<noteq> []"
    by (auto simp: str_lower_def)
  with plain_str_lower [OF s a] show ?thesis
    by simp
qed

lemma str_split_append:
  "sep \<notin> set a \<Longrightarrow> str_split sep (a @ sep # b) = a # str_split sep b"
  by (induction a) auto

lemma str_split_notin: "sep \<notin> set a \<Longrightarrow> str_split sep a = [a]"
  by (induction a) auto

lemma takeWhile_append_stop:
  "\<not> P y \<Longrightarrow> takeWhile P (xs @ y # ys) = takeWhile P xs"
  by (induction xs) auto

lemma last_segment_append:
  "last_segment (a @ CHR ''/'' # z) = last_segment z"
  by (simp add: last_segment_def takeWhile_append_stop)

lemma last_segment_suffix: "\<exists>y. z = y @ last_segment z"
proof -
  have "z = rev (takeWhile (\<lambda>c. c \<noteq> CHR ''/'') (rev z) @ dropWhile (\<lambda>c. c \<noteq> CHR ''/'') (rev z))"
    by (simp only: takeWhile_dropWhile_id rev_rev_ident)
  then have "z = rev (dropWhile (\<lambda>c. c \<noteq> CHR ''/'') (rev z)) @ last_segment z"
    by (simp only: rev_append last_segment_def)
  then show ?thesis ..
qed

lemma splitparams_prefix:
  "\<exists>z'. fst (splitparams (p @ CHR ''/'' # z)) = p @ CHR ''/'' # z'"
proof (cases "CHR '';'' \<in> set (last_segment (p @ CHR ''/'' # z))")
  case False
  then show ?thesis by (simp add: splitparams_def)
next
  case True
  obtain y where y: "z = y @ last_segment z"
    using last_segment_suffix by blast
  let ?ls = "last_segment z"
  have ls: "last_segment (p @ CHR ''/'' # z) = ?ls"
    by (rule last_segment_append)
  have "take (length (p @ CHR ''/'' # z) - length ?ls) (p @ CHR ''/'' # z) = p @ CHR ''/'' # y"
  proof -
    have e: "p @ CHR ''/'' # z = (p @ CHR ''/'' # y) @ ?ls"
      using y by simp
    have "length (p @ CHR ''/'' # z) - length ?ls = length (p @ CHR ''/'' # y)"
      by (subst e) simp
    then show ?thesis
      by (subst e) simp
  qed
  with True ls have "fst (splitparams (p @ CHR ''/'' # z)) = p @ CHR ''/'' # (y @ before CHR '';'' ?ls)"
    by (simp add: splitparams_def)
  then show ?thesis ..
qed

lemma split_scheme_valid:
  assumes "sch \<noteq> []" and "isascii_alpha (hd sch)"
    and "list_all (\<lambda>c. c \<in> set scheme_chars) sch"
  shows "split_scheme (sch @ CHR '':'' # r) = (str_lower sch, r)"
proof -
  have n: "CHR '':'' \<notin> set sch"
    using assms(3) scheme_char_not_special by (auto simp: list_all_iff)
  have b: "before CHR '':'' (sch @ CHR '':'' # r) = sch"
    using before_append [OF n, of "CHR '':'' # r"] by (simp add: before_Cons_same)
  have a: "after CHR '':'' (sch @ CHR '':'' # r) = r"
    by (rule after_append [OF n])
  have h: "hd (sch @ CHR '':'' # r) = hd sch"
    using assms(1) by simp
  show ?thesis
    unfolding split_scheme_def b a h using assms by simp
qed

lemma splitnetloc_host:
  assumes "list_all (\<lambda>c. \<not> netloc_delim c) h"
  shows "splitnetloc (''//'' @ h @ CHR ''/'' # r) = (h, CHR ''/'' # r)"
proof -
  have d: "netloc_delim CHR ''/''"
    by (simp add: netloc_delim_def)
  have "takeWhile (\<lambda>c. \<not> netloc_delim c) (h @ CHR ''/'' # r) = h"
    using assms d by (induction h) auto
  moreover have "dropWhile (\<lambda>c. \<not> netloc_delim c) (h @ CHR ''/'' # r) = CHR ''/'' # r"
    using assms d by (induction h) auto
  ultimately show ?thesis
    by (simp add: splitnetloc_def)
qed

lemma filter_safe_id:
  "set s \<inter> set unsafe_url_bytes = {} \<Longrightarrow> filter (\<lambda>c. c \<notin> set unsafe_url_bytes) s = s"
  by (rule filter_True) blast

lemma plain_list_facts:
  assumes "list_all (\<lambda>c. isascii_alpha c \<or> c = CHR ''.'') s"
  shows "set s \<inter> set unsafe_url_bytes = {}"
    and "list_all (\<lambda>c. \<not> netloc_delim c) s"
    and "str_isascii s"
    and "set s \<inter> set ''/?#[]:@;%'' = {}"
proof -
  have a: "\<And>c. c \<in> set s \<Longrightarrow> isascii_alpha c \<or> c = CHR ''.''"
    using assms by (simp add: list_all_iff)
  show "set s \<inter> set unsafe_url_bytes = {}"
    using plain_not_special a by blast
  show "list_all (\<lambda>c. \<not> netloc_delim c) s"
    unfolding list_all_iff using plain_not_special a by blast
  show "str_isascii s"
    unfolding str_isascii_def list_all_iff using plain_not_special a by blast
  show "set s \<inter> set ''/?#[]:@;%'' = {}"
    using plain_not_special a by blast
qed

lemma urlsplit_authority:
  assumes "split_scheme (url_clean url) = (s, ''//'' @ h @ CHR ''/'' # r)"
    and "list_all (\<lambda>c. isascii_alpha c \<or> c = CHR ''.'') h"
  shows "\<exists>q f. urlsplit L url =
           Inr \<lparr>scheme = s, netloc = h,
                path = before CHR ''?'' (before CHR ''#'' (CHR ''/'' # r)),
                query = q, fragment = f\<rparr>"
proof -
  have sn: "splitnetloc (''//'' @ h @ CHR ''/'' # r) = (h, CHR ''/'' # r)"
    by (rule splitnetloc_host) (rule plain_list_facts(2) [OF assms(2)])
  have t: "take 2 (''//'' @ h @ CHR ''/'' # r) = ''//''"
    by simp
  have br: "CHR ''['' \<notin> set h" "CHR '']'' \<notin> set h"
    using plain_list_facts(4) [OF assms(2)] by auto
  have chk: "\<not> checknetloc_raises L h"
    using plain_list_facts(3) [OF assms(2)] by (simp add: checknetloc_raises_def)
  show ?thesis
    unfolding urlsplit_def assms(1) Let_def prod.case t sn
    using br chk by (simp add: before_notin)
qed

lemma path_tail_cases:
  assumes "t = [] \<or> hd t \<in> set ''/?#''"
  shows "before CHR ''?'' (before CHR ''#'' t) = []
       \<or> (\<exists>z. before CHR ''?'' (before CHR ''#'' t) = CHR ''/'' # z)"
proof (cases t)
  case Nil
  then show ?thesis by (simp add: before_def)
next
  case (Cons d x)
  with assms have "d = CHR ''/'' \<or> d = CHR ''?'' \<or> d = CHR ''#''"
    by auto
  then show ?thesis
    using Cons by (auto simp: before_def)
qed

lemma urlparse_path_prefix:
  assumes "urlsplit L url = Inr r" and "path r = p @ t" and "CHR '';'' \<notin> set p"
    and "t = [] \<or> (\<exists>z. t = CHR ''/'' # z)"
  shows "\<exists>q t'. urlparse L url = Inr q \<and> netloc q = netloc r \<and> path q = p @ t'
           \<and> (t' = [] \<or> (\<exists>z. t' = CHR ''/'' # z))"
proof (cases "scheme r \<in> set uses_params \<and> CHR '';'' \<in> set (path r)")
  case False
  then have "urlparse L url = Inr \<lparr>scheme = scheme r, netloc = netloc r, path = path r,
                     query = query r, fragment = fragment r, params = ''''\<rparr>"
    using assms(1) by (auto simp: urlparse_def)
  with assms(2,4) show ?thesis
    by auto
next
  case True
  then have u: "urlparse L url = Inr \<lparr>scheme = scheme r, netloc = netloc r,
                     path = fst (splitparams (path r)),
                     query = query r, fragment = fragment r, params = snd (splitparams (path r))\<rparr>"
    using assms(1) by (simp add: urlparse_def)
  from True assms(2,3) have "CHR '';'' \<in> set t"
    by auto
  with assms(4) obtain z where z: "t = CHR ''/'' # z"
    by auto
  obtain z' where "fst (splitparams (p @ CHR ''/'' # z)) = p @ CHR ''/'' # z'"
    using splitparams_prefix by blast
  with u z assms(2) show ?thesis
    by auto
qed

lemma path_parts_mod:
  assumes "tag \<noteq> []" and "CHR ''/'' \<notin> set tag" and "ident \<noteq> []" and "CHR ''/'' \<notin> set ident"
    and "t = [] \<or> (\<exists>z. t = CHR ''/'' # z)"
  shows "\<exists>more. path_parts ((CHR ''/'' # tag @ CHR ''/'' # ident) @ t) = tag # ident # more"
proof -
  have a: "str_split CHR ''/'' ((CHR ''/'' # tag @ CHR ''/'' # ident) @ t)
             = [] # tag # str_split CHR ''/'' (ident @ t)"
    using str_split_append [OF assms(2), of "ident @ t"] by simp
  from assms(5) have "\<exists>more. str_split CHR ''/'' (ident @ t) = ident # more"
  proof
    assume "t = []"
    then show ?thesis
      using str_split_notin [OF assms(4)] by simp
  next
    assume "\<exists>z. t = CHR ''/'' # z"
    then obtain z where "t = CHR ''/'' # z" ..
    then show ?thesis
      using str_split_append [OF assms(4), of z] by simp
  qed
  then obtain more where "str_split CHR ''/'' (ident @ t) = ident # more" ..
  with a assms(1,3) show ?thesis
    by (simp add: path_parts_def)
qed

lemma url_clean_canonical:
  assumes "sch \<noteq> []" and "isascii_alpha (hd sch)"
    and "list_all (\<lambda>c. c \<in> set scheme_chars) sch"
    and "list_all (\<lambda>c. isascii_alpha c \<or> c = CHR ''.'') host"
    and "list_all (\<lambda>c. isascii_alpha c \<or> c = CHR ''.'') tag"
    and "set ident \<inter> set unsafe_url_bytes = {}"
  shows "url_clean (sch @ ''://'' @ host @ ''/'' @ tag @ ''/'' @ ident @ tail)
           = sch @ CHR '':'' # (''//'' @ host @ CHR ''/'' #
               (tag @ CHR ''/'' # ident @ filter (\<lambda>c. c \<notin> set unsafe_url_bytes) tail))"
proof -
  obtain a s where s: "sch = a # s"
    using assms(1) by (cases sch) auto
  with assms(2) have "\<not> c0_control_or_space a"
    by (simp add: alpha_not_c0)
  then have d: "dropWhile c0_control_or_space (sch @ ''://'' @ host @ ''/'' @ tag @ ''/'' @ ident @ tail)
      = sch @ ''://'' @ host @ ''/'' @ tag @ ''/'' @ ident @ tail"
    using s by simp
  have "set sch \<inter> set unsafe_url_bytes = {}"
    using assms(3) scheme_char_not_special by (auto simp: list_all_iff)
  then have fs: "filter (\<lambda>c. c \<notin> set unsafe_url_bytes) sch = sch"
    by (rule filter_safe_id)
  have fh: "filter (\<lambda>c. c \<notin> set unsafe_url_bytes) host = host"
    by (rule filter_safe_id) (rule plain_list_facts(1) [OF assms(4)])
  have ft: "filter (\<lambda>c. c \<notin> set unsafe_url_bytes) tag = tag"
    by (rule filter_safe_id) (rule plain_list_facts(1) [OF assms(5)])
  have fi: "filter (\<lambda>c. c \<notin> set unsafe_url_bytes) ident = ident"
    by (rule filter_safe_id) (rule assms(6))
  have lit: "filter (\<lambda>c. c \<notin> set unsafe_url_bytes) ''://'' = ''://''"
    "filter (\<lambda>c. c \<notin> set unsafe_url_bytes) ''/'' = ''/''"
    by (simp_all add: unsafe_url_bytes_def)
  show ?thesis
    unfolding url_clean_def d filter_append fs fh ft fi lit by simp
qed

lemma filter_safe_tail:
  assumes "tail = [] \<or> hd tail \<in> set ''/?#''"
  shows "filter (\<lambda>c. c \<notin> set unsafe_url_bytes) tail = []
       \<or> hd (filter (\<lambda>c. c \<notin> set unsafe_url_bytes) tail) \<in> set ''/?#''"
proof (cases tail)
  case Nil
  then show ?thesis by simp
next
  case (Cons d x)
  with assms have "d = CHR ''/'' \<or> d = CHR ''?'' \<or> d = CHR ''#''"
    by auto
  then show ?thesis
    using Cons by (auto simp: unsafe_url_bytes_def)
qed

text \<open>
  The parser is followed through on every URL of the shape
  \<^verbatim>\<open><scheme>://<host>/<tag>/<id><tail>\<close>: the scheme is any valid scheme, the host
  lower-cases to one of the two canonical names, the tag lower-cases to \<^verbatim>\<open>mod\<close>, the
  identifier is not empty and has none of \<^verbatim>\<open>/ ? # ;\<close> and no tab or line break, and the
  tail is empty or begins with \<^verbatim>\<open>/\<close>, \<^verbatim>\<open>?\<close> or \<^verbatim>\<open>#\<close>.  The result is the identifier.
\<close>

lemma extract_canonical_url:
  assumes sch: "sch \<noteq> []" "isascii_alpha (hd sch)" "list_all (\<lambda>c. c \<in> set scheme_chars) sch"
    and host: "str_lower host \<in> {''modrinth.com'', ''www.modrinth.com''}"
    and tag: "str_lower tag = ''mod''"
    and ident: "ident \<noteq> []" "set ident \<inter> set ''/?#;'' = {}"
      "set ident \<inter> set unsafe_url_bytes = {}"
    and tail: "tail = [] \<or> hd tail \<in> set ''/?#''"
  shows "extract_modrinth_project_id L
           (sch @ ''://'' @ host @ ''/'' @ tag @ ''/'' @ ident @ tail) = Inr (Some ident)"
proof -
  let ?url = "sch @ ''://'' @ host @ ''/'' @ tag @ ''/'' @ ident @ tail"
  let ?t1 = "filter (\<lambda>c. c \<notin> set unsafe_url_bytes) tail"
  let ?p = "CHR ''/'' # tag @ CHR ''/'' # ident"
  let ?t2 = "before CHR ''?'' (before CHR ''#'' ?t1)"
  have ph: "list_all (\<lambda>c. isascii_alpha c \<or> c = CHR ''.'') host"
    by (rule canonical_plain [OF host])
  have pt: "list_all (\<lambda>c. isascii_alpha c \<or> c = CHR ''.'') tag" and tn: "tag \<noteq> []"
    using mod_plain [OF tag] by simp_all
  have ts: "set tag \<inter> set ''/?#[]:@;%'' = {}"
    by (rule plain_list_facts(4) [OF pt])
  have np: "CHR ''#'' \<notin> set ?p" "CHR ''?'' \<notin> set ?p" "CHR '';'' \<notin> set ?p"
    using ts ident(2) by auto
  have sl: "CHR ''/'' \<notin> set tag" "CHR ''/'' \<notin> set ident"
    using ts ident(2) by auto
  have c: "url_clean ?url = sch @ CHR '':'' # (''//'' @ host @ CHR ''/'' # (tag @ CHR ''/'' # ident @ ?t1))"
    by (rule url_clean_canonical [OF sch ph pt ident(3)])
  have s: "split_scheme (url_clean ?url)
             = (str_lower sch, ''//'' @ host @ CHR ''/'' # (tag @ CHR ''/'' # ident @ ?t1))"
    unfolding c by (rule split_scheme_valid [OF sch])
  obtain q f where r: "urlsplit L ?url =
      Inr \<lparr>scheme = str_lower sch, netloc = host,
           path = before CHR ''?'' (before CHR ''#'' (CHR ''/'' # (tag @ CHR ''/'' # ident @ ?t1))),
           query = q, fragment = f\<rparr>"
    using urlsplit_authority [OF s ph] by blast
  have e: "CHR ''/'' # (tag @ CHR ''/'' # ident @ ?t1) = ?p @ ?t1"
    by simp
  have pth: "before CHR ''?'' (before CHR ''#'' (CHR ''/'' # (tag @ CHR ''/'' # ident @ ?t1))) = ?p @ ?t2"
    unfolding e before_append [OF np(1)] before_append [OF np(2)] by (rule refl)
  have t2: "?t2 = [] \<or> (\<exists>z. ?t2 = CHR ''/'' # z)"
    by (rule path_tail_cases [OF filter_safe_tail [OF tail]])
  obtain p t' where p: "urlparse L ?url = Inr p" "netloc p = host" "path p = ?p @ t'"
    "t' = [] \<or> (\<exists>z. t' = CHR ''/'' # z)"
    using urlparse_path_prefix [OF r _ np(3) t2] pth by auto
  obtain more where m: "path_parts (?p @ t') = tag # ident # more"
    using path_parts_mod [OF tn sl(1) ident(1) sl(2) p(4)] by blast
  show ?thesis
    unfolding extract_modrinth_project_id_def p(1) using p(2,3) m host tag
    by (simp add: Let_def)
qed

lemma extract_canonical_url_example:
  "extract_modrinth_project_id L ''HTTPS://Modrinth.COM/MOD/AANobbMI?tab=versions''
     = Inr (Some ''AANobbMI'')"
proof -
  have a: "isascii_alpha (hd ''HTTPS'')" "list_all (\<lambda>c. c \<in> set scheme_chars) ''HTTPS''"
    "str_lower ''Modrinth.COM'' \<in> {''modrinth.com'', ''www.modrinth.com''}"
    "str_lower ''MOD'' = ''mod''"
    by code_simp+
  have b: "set ''AANobbMI'' \<inter> set ''/?#;'' = {}"
    "set ''AANobbMI'' \<inter> set unsafe_url_bytes = {}"
    by (simp_all add: unsafe_url_bytes_def)
  from extract_canonical_url [of "''HTTPS''" "''Modrinth.COM''" "''MOD''" "''AANobbMI''"
      "''?tab=versions''" L, OF _ a _ b]
  show ?thesis
    by simp
qed

text \<open>
  Claim C1.  The claim is about the host of the URL, and so is the function: it names the
  value it compares \<^verbatim>\<open>host\<close> and accepts Modrinth mod URLs.  On the URLs of the canonical
  shape above the result is the second segment, as claimed.  But line 104 takes
  \<^verbatim>\<open>parsed.netloc\<close> where the host is \<^verbatim>\<open>parsed.hostname\<close>: for
  \<^verbatim>\<open>https://modrinth.com:443/mod/abc\<close> and \<^verbatim>\<open>https://user@modrinth.com/mod/abc\<close> the host
  is \<^verbatim>\<open>modrinth.com\<close> and the path is \<^verbatim>\<open>/mod/abc\<close>, yet the result is \<open>None\<close> where the claim
  has \<^verbatim>\<open>abc\<close>, the result for the same URL without port and user information.
\<close>

theorem extract_netloc_not_host:
  "urlparse lib0 ''https://modrinth.com:443/mod/abc'' =
     Inr \<lparr>scheme = ''https'', netloc = ''modrinth.com:443'', path = ''/mod/abc'', query = '''',
          fragment = '''', params = ''''\<rparr> \<and>
   hostname \<lparr>scheme = ''https'', netloc = ''modrinth.com:443'', path = ''/mod/abc'', query = '''',
          fragment = '''', params = ''''\<rparr> = Some ''modrinth.com'' \<and>
   path_parts ''/mod/abc'' = [''mod'', ''abc''] \<and>
   extract_modrinth_project_id lib0 ''https://modrinth.com:443/mod/abc'' = Inr None \<and>
   urlparse lib0 ''https://user@modrinth.com/mod/abc'' =
     Inr \<lparr>scheme = ''https'', netloc = ''user@modrinth.com'', path = ''/mod/abc'', query = '''',
          fragment = '''', params = ''''\<rparr> \<and>
   hostname \<lparr>scheme = ''https'', netloc = ''user@modrinth.com'', path = ''/mod/abc'', query = '''',
          fragment = '''', params = ''''\<rparr> = Some ''modrinth.com'' \<and>
   extract_modrinth_project_id lib0 ''https://user@modrinth.com/mod/abc'' = Inr None \<and>
   extract_modrinth_project_id lib0 ''https://modrinth.com/mod/abc'' = Inr (Some ''abc'')"
  by code_simp

text \<open>
  Claim C4.  For every string the normalizer returns a value, an identifier or \<open>None\<close>,
  and raises nothing; whenever the URL parser raises, the result is \<open>None\<close>.
\<close>

theorem extract_never_raises:
  "(\<exists>r. extract_modrinth_project_id L url = Inr r) \<and>
   (\<forall>e. urlparse L url = Inl e \<longrightarrow> extract_modrinth_project_id L url = Inr None)"
  by (auto simp: extract_modrinth_project_id_def Let_def split: sum.splits dest: urlparse_raises)

theorem extract_never_raises_witness:
  "urlparse lib0 ''http://[::1/mod/abc'' = Inl ValueError \<and>
   extract_modrinth_project_id lib0 ''http://[::1/mod/abc'' = Inr None \<and>
   extract_modrinth_project_id lib0 '''' = Inr None"
proof -
  have h: "urlparse lib0 ''http://[::1/mod/abc'' = Inl ValueError"
    by code_simp
  have e: "extract_modrinth_project_id lib0 '''' = Inr None"
    by code_simp
  from extract_never_raises [of lib0 "''http://[::1/mod/abc''"] h
  have "extract_modrinth_project_id lib0 ''http://[::1/mod/abc'' = Inr None"
    by blast
  with h e show ?thesis by simp
qed

lemma split_scheme_none:
  "fst (split_scheme u) = [] \<Longrightarrow> split_scheme u = ([], u)"
  by (auto simp: split_scheme_def str_lower_def split: if_splits)

lemma urlsplit_no_authority:
  assumes "split_scheme (url_clean url) = (sch, rest)" and "take 2 rest \<noteq> ''//''"
  shows "urlsplit L url =
     Inr \<lparr>scheme = sch, netloc = [],
          path = before CHR ''?'' (before CHR ''#'' rest),
          query = (if CHR ''?'' \<in> set (before CHR ''#'' rest)
                   then after CHR ''?'' (before CHR ''#'' rest) else []),
          fragment = (if CHR ''#'' \<in> set rest then after CHR ''#'' rest else [])\<rparr>"
  using assms
  by (simp add: urlsplit_def Let_def checknetloc_raises_def before_notin)

lemma urlparse_no_authority:
  assumes "split_scheme (url_clean url) = (sch, rest)" and "take 2 rest \<noteq> ''//''"
  shows "\<exists>p. urlparse L url = Inr p \<and> netloc p = [] \<and> scheme p = sch \<and>
     (set rest \<inter> set ''?#;'' = {} \<longrightarrow> path p = rest)"
proof (cases "set rest \<inter> set ''?#;'' = {}")
  case True
  then have "before CHR ''?'' (before CHR ''#'' rest) = rest" "CHR '';'' \<notin> set rest"
    by (auto simp: before_notin)
  then show ?thesis
    unfolding urlparse_def urlsplit_no_authority [OF assms]
    by simp
next
  case False
  then show ?thesis
    unfolding urlparse_def urlsplit_no_authority [OF assms]
    by auto
qed

lemma extract_empty_netloc:
  "urlparse L url = Inr p \<Longrightarrow> netloc p = [] \<Longrightarrow> extract_modrinth_project_id L url = Inr None"
  by (simp add: extract_modrinth_project_id_def str_lower_def)

lemma hostname_empty_netloc: "netloc p = [] \<Longrightarrow> hostname p = None"
  by (simp add: hostname_def rpartition_at_def before_def)

text \<open>
  Claim C9, as amended.  The parser first strips leading control characters and spaces
  and removes tabs and line breaks (\<open>url_clean\<close>), then splits a scheme off.  When what
  remains does not begin with the authority marker \<^verbatim>\<open>//\<close>, parsing succeeds with an empty
  network location and no host, and the normalizer returns \<open>None\<close>, whatever domain and
  path the text names.  When moreover no scheme was found, the scheme is empty, and the
  path is the whole cleaned string provided it has no \<^verbatim>\<open>?\<close>, \<^verbatim>\<open>#\<close> or \<^verbatim>\<open>;\<close>.
\<close>

theorem no_authority_none:
  assumes "take 2 (snd (split_scheme (url_clean url))) \<noteq> ''//''"
  shows "\<exists>p. urlparse L url = Inr p \<and> netloc p = [] \<and> hostname p = None \<and>
           extract_modrinth_project_id L url = Inr None \<and>
           (fst (split_scheme (url_clean url)) = [] \<longrightarrow>
              scheme p = [] \<and>
              (set (url_clean url) \<inter> set ''?#;'' = {} \<longrightarrow> path p = url_clean url))"
proof -
  obtain sch rest where s: "split_scheme (url_clean url) = (sch, rest)"
    by (cases "split_scheme (url_clean url)")
  with assms have r: "take 2 rest \<noteq> ''//''"
    by simp
  from urlparse_no_authority [OF s r, of L]
  obtain p where p: "urlparse L url = Inr p" "netloc p = []" "scheme p = sch"
      "set rest \<inter> set ''?#;'' = {} \<longrightarrow> path p = rest"
    by blast
  have "sch = [] \<Longrightarrow> rest = url_clean url"
    using s split_scheme_none [of "url_clean url"] by simp
  with p s show ?thesis
    using extract_empty_netloc [OF p(1) p(2)] hostname_empty_netloc [OF p(2)]
    by auto
qed

theorem no_authority_none_witness:
  "take 2 (snd (split_scheme (url_clean ''modrinth.com/mod/abc''))) \<noteq> ''//'' \<and>
   urlparse lib0 ''modrinth.com/mod/abc'' =
     Inr \<lparr>scheme = '''', netloc = '''', path = ''modrinth.com/mod/abc'', query = '''',
          fragment = '''', params = ''''\<rparr> \<and>
   hostname \<lparr>scheme = '''', netloc = '''', path = ''modrinth.com/mod/abc'', query = '''',
          fragment = '''', params = ''''\<rparr> = None \<and>
   extract_modrinth_project_id lib0 ''modrinth.com/mod/abc'' = Inr None"
proof -
  let ?u = "''modrinth.com/mod/abc''"
  have h: "take 2 (snd (split_scheme (url_clean ?u))) \<noteq> ''//''"
    by code_simp
  have f: "fst (split_scheme (url_clean ?u)) = []"
    by code_simp
  have c: "url_clean ?u = ?u"
    by code_simp
  have i: "set ?u \<inter> set ''?#;'' = {}"
    by simp
  from no_authority_none [OF h, of lib0] f c i
  obtain p where p: "urlparse lib0 ?u = Inr p" "netloc p = []" "hostname p = None"
    "extract_modrinth_project_id lib0 ?u = Inr None" "scheme p = []" "path p = ?u"
    by auto
  have u: "urlparse lib0 ?u =
     Inr \<lparr>scheme = '''', netloc = '''', path = ''modrinth.com/mod/abc'', query = '''',
          fragment = '''', params = ''''\<rparr>"
    by code_simp
  with p(1,3) have "hostname \<lparr>scheme = '''', netloc = '''', path = ''modrinth.com/mod/abc'',
          query = '''', fragment = '''', params = ''''\<rparr> = None"
    by simp
  with h u p(4) show ?thesis
    by simp
qed

text \<open>
  The claim as it was written puts the whole string in the path and requires a scheme.
  A string with a query and neither scheme nor \<^verbatim>\<open>//\<close> keeps only the part before \<^verbatim>\<open>?\<close>
  in the path; and a string that starts with \<^verbatim>\<open>//\<close> is accepted without a scheme.
\<close>

theorem whole_string_path_counterexample:
  "take 2 (snd (split_scheme (url_clean ''modrinth.com/mod/abc?x=1''))) \<noteq> ''//'' \<and>
   fst (split_scheme (url_clean ''modrinth.com/mod/abc?x=1'')) = '''' \<and>
   urlparse lib0 ''modrinth.com/mod/abc?x=1'' =
     Inr \<lparr>scheme = '''', netloc = '''', path = ''modrinth.com/mod/abc'', query = ''x=1'',
          fragment = '''', params = ''''\<rparr> \<and>
   fst (split_scheme (url_clean ''//modrinth.com/mod/abc'')) = '''' \<and>
   extract_modrinth_project_id lib0 ''//modrinth.com/mod/abc'' = Inr (Some ''abc'')"
  by code_simp

section \<open>Properties of the merge\<close>

lemma merge_projects_final:
  "fst (merge_projects e i) = sorted_list_of_set (set e \<union> set i)"
  by (simp add: merge_projects_def Let_def)

lemma merge_projects_count:
  "snd (merge_projects e i) = int (length (fst (merge_projects e i))) - int (card (set e))"
  by (simp add: merge_projects_def Let_def)

lemma card_union_minus:
  "int (card (set e \<union> set i)) - int (card (set e)) = int (card (set i - set e))"
proof -
  have "set e \<union> set i = set e \<union> (set i - set e)" by auto
  then have "card (set e \<union> set i) = card (set e) + card (set i - set e)"
    by (metis List.finite_set Diff_disjoint card_Un_disjoint finite_Diff)
  then show ?thesis by simp
qed

text \<open>
  Claim C2.  For every pair of collections of identifier strings, given as the lists the
  sets are built from, the merge returns as \<open>final\<close> the sorted list without repetition of
  the union of the two sets, and as \<open>added_count\<close> the length of \<open>final\<close> minus the size of the
  existing set, which is the number of incoming identifiers that were not there.  The
  existing set is contained in \<open>final\<close>.  For \<^verbatim>\<open>{"a","c"}\<close> and \<^verbatim>\<open>{"b","a"}\<close> the result
  is \<^verbatim>\<open>["a","b","c"]\<close> and 1.  The order on strings is the lexicographic one over the code
  points.
\<close>

theorem merge_projects_union_sorted:
  "set (fst (merge_projects existing incoming)) = set existing \<union> set incoming \<and>
   sorted (fst (merge_projects existing incoming)) \<and>
   distinct (fst (merge_projects existing incoming)) \<and>
   snd (merge_projects existing incoming) =
     int (length (fst (merge_projects existing incoming))) - int (card (set existing)) \<and>
   snd (merge_projects existing incoming) = int (card (set incoming - set existing)) \<and>
   set existing \<subseteq> set (fst (merge_projects existing incoming)) \<and>
   merge_projects [''a'', ''c''] [''b'', ''a''] = ([''a'', ''b'', ''c''], 1) \<and>
   merge_projects [] [] = ([], 0)"
proof -
  have ex: "merge_projects [''a'', ''c''] [''b'', ''a''] = ([''a'', ''b'', ''c''], 1)"
    by code_simp
  have em: "merge_projects [] [] = ([] :: string list, 0)"
    by code_simp
  have len: "length (sorted_list_of_set (set existing \<union> set incoming)) = card (set existing \<union> set incoming)"
    by simp
  have cnt: "snd (merge_projects existing incoming) = int (card (set incoming - set existing))"
    unfolding merge_projects_count merge_projects_final len
    by (rule card_union_minus)
  show ?thesis
    using ex em cnt
    by (simp add: merge_projects_final merge_projects_count)
qed

theorem merge_projects_union_sorted_witness:
  "set (fst (merge_projects [''a'', ''c''] [''b'', ''a''])) = {''a'', ''b'', ''c''} \<and>
   snd (merge_projects [''a'', ''c''] [''b'', ''a'']) = 1"
  using merge_projects_union_sorted [of "[''a'', ''c'']" "[''b'', ''a'']"]
  by auto

text \<open>
  Claim C5.  The merge is idempotent: when it has returned \<open>final\<close> for some existing and
  incoming sets, merging the same incoming set into \<open>final\<close> returns \<open>final\<close> again and adds
  nothing.
\<close>

theorem merge_projects_idempotent:
  "merge_projects existing incoming = (final, n) \<Longrightarrow> merge_projects final incoming = (final, 0)"
proof -
  assume m: "merge_projects existing incoming = (final, n)"
  then have f: "final = sorted_list_of_set (set existing \<union> set incoming)"
    by (simp add: merge_projects_def Let_def)
  then have s: "set final = set existing \<union> set incoming" and d: "distinct final"
    by simp_all
  have u: "set final \<union> set incoming = set existing \<union> set incoming"
    using s by auto
  have c: "card (set final) = length final"
    using d by (rule distinct_card)
  show ?thesis
    unfolding merge_projects_def Let_def u c
    using f by simp
qed

theorem merge_projects_idempotent_witness:
  "merge_projects [''a'', ''c''] [''b'', ''a''] = ([''a'', ''b'', ''c''], 1) \<and>
   merge_projects [''a'', ''b'', ''c''] [''b'', ''a''] = ([''a'', ''b'', ''c''], 0)"
proof -
  have h: "merge_projects [''a'', ''c''] [''b'', ''a''] = ([''a'', ''b'', ''c''], 1)"
    by code_simp
  from merge_projects_idempotent [OF h] h show ?thesis
    by simp
qed

section \<open>Properties of the collection loop\<close>











section \<open>Properties of the fetched members\<close>

lemma existing_projects_of_malformed:
  assumes "dict_get coll ''projects'' JNull = Inr v" and "\<forall>xs. v \<noteq> JArr xs"
  shows "existing_projects_of coll w =
     (Inr [],
      if truthy v
      then print ''[warn] Unexpected 'projects' field format in collection; treating as empty.'' [] w
      else w)"
  using assms
  by (cases v) (simp_all add: existing_projects_of_def py_or_def)

lemma merge_projects_empty:
  "merge_projects [] ids = (sorted_list_of_set (set ids), int (card (set ids)))"
  by (simp add: merge_projects_def Let_def)

text \<open>
  What lines 391 to 394 do with a \<^verbatim>\<open>projects\<close> field that is not a list: the existing
  members are taken to be empty and nothing is raised, so the merge goes on and the final
  list is the sorted list of the identifiers from the modlist.  The warning is printed
  when the field holds a value that counts as true, and not otherwise.
\<close>

lemma malformed_projects_treated_empty:
  assumes "dict_get coll ''projects'' JNull = Inr v" and "\<forall>xs. v \<noteq> JArr xs"
  shows "existing_projects_of coll w =
           (Inr [],
            if truthy v
            then print ''[warn] Unexpected 'projects' field format in collection; treating as empty.'' [] w
            else w) \<and>
         (fetch_collection_details L E cfg cid w0 = (Inr coll, w) \<longrightarrow>
            fst (main_merge L E cfg cid project_ids skipped w0) =
              Inr (sorted_list_of_set (set project_ids)))"
proof -
  note e = existing_projects_of_malformed [OF assms]
  show ?thesis
    by (simp add: e main_merge_def merge_projects_empty)
qed

lemma malformed_projects_treated_empty_examples:
  "existing_projects_of (JObj [(''id'', JStr ''C1''), (''projects'', JStr ''zz'')])
       (example_world example_modlist []) =
     (Inr [],
      print ''[warn] Unexpected 'projects' field format in collection; treating as empty.'' []
        (example_world example_modlist [])) \<and>
   fst (main_merge lib0 (example_env (JStr ''zz'')) example_cfg (JStr ''C1'') [''b'', ''a''] 0
          (example_world example_modlist [])) = Inr [''a'', ''b'']"
proof -
  let ?coll = "JObj [(''id'', JStr ''C1''), (''projects'', JStr ''zz'')]"
  let ?w0 = "example_world example_modlist []"
  let ?f = "fetch_collection_details lib0 (example_env (JStr ''zz'')) example_cfg (JStr ''C1'') ?w0"
  have d: "dict_get ?coll ''projects'' JNull = Inr (JStr ''zz'')"
    by code_simp
  have n: "\<forall>xs. JStr ''zz'' \<noteq> JArr xs"
    by simp
  have t: "truthy (JStr ''zz'')"
    by simp
  have "fst ?f = Inr ?coll"
    by code_simp
  then have f: "?f = (Inr ?coll, snd ?f)"
    by (cases ?f) simp
  have s: "sorted_list_of_set (set [''b'', ''a'']) = [''a'', ''b'']"
    by code_simp
  from malformed_projects_treated_empty [OF d n, of ?w0] t
  have a: "existing_projects_of ?coll ?w0 =
     (Inr [],
      print ''[warn] Unexpected 'projects' field format in collection; treating as empty.'' [] ?w0)"
    by simp
  from f malformed_projects_treated_empty [OF d n, of "snd ?f" lib0 "example_env (JStr ''zz'')"
      example_cfg "JStr ''C1''" ?w0 "[''b'', ''a'']" 0]
  have "fst (main_merge lib0 (example_env (JStr ''zz'')) example_cfg (JStr ''C1'') [''b'', ''a''] 0 ?w0)
      = Inr (sorted_list_of_set (set [''b'', ''a'']))"
    by blast
  with a s show ?thesis
    by simp
qed

text \<open>
  Claim C8.  A \<^verbatim>\<open>projects\<close> field that is not a list is taken as empty and the run goes
  on, as claimed.  The warning of line 393 is written for every such field, but line 391
  reads \<^verbatim>\<open>coll.get("projects") or []\<close>, and the \<^verbatim>\<open>or\<close> replaces every value that counts
  as false by the empty list before the test of line 392 sees it.  For the empty object
  and the number 0 no warning is printed, where the claim has one; for the object
  \<^verbatim>\<open>{"a": null}\<close> and the number 1 it is printed.
\<close>

theorem malformed_projects_falsy_no_warning:
  "existing_projects_of (JObj [(''id'', JStr ''C1''), (''projects'', JObj [])])
       (example_world example_modlist []) =
     (Inr [], example_world example_modlist []) \<and>
   existing_projects_of (JObj [(''id'', JStr ''C1''), (''projects'', JInt 0)])
       (example_world example_modlist []) =
     (Inr [], example_world example_modlist []) \<and>
   existing_projects_of (JObj [(''id'', JStr ''C1''), (''projects'', JObj [(''a'', JNull)])])
       (example_world example_modlist []) =
     (Inr [],
      print ''[warn] Unexpected 'projects' field format in collection; treating as empty.'' []
        (example_world example_modlist [])) \<and>
   existing_projects_of (JObj [(''id'', JStr ''C1''), (''projects'', JInt 1)])
       (example_world example_modlist []) =
     (Inr [],
      print ''[warn] Unexpected 'projects' field format in collection; treating as empty.'' []
        (example_world example_modlist [])) \<and>
   fst (main_merge lib0 (example_env (JObj [])) example_cfg (JStr ''C1'') [''b'', ''a''] 0
          (example_world example_modlist [])) = Inr [''a'', ''b''] \<and>
   Out ''[warn] Unexpected 'projects' field format in collection; treating as empty.'' []
     \<notin> set (out (snd (main_merge lib0 (example_env (JObj [])) example_cfg (JStr ''C1'')
                           [''b'', ''a''] 0 (example_world example_modlist [])))) \<and>
   Out ''[warn] Unexpected 'projects' field format in collection; treating as empty.'' []
     \<in> set (out (snd (main_merge lib0 (example_env (JObj [(''a'', JNull)])) example_cfg (JStr ''C1'')
                           [''b'', ''a''] 0 (example_world example_modlist []))))"
  by (simp add: existing_projects_of_def dict_get_def py_or_def main_merge_def
      fetch_collection_details_def base_headers_def getitem_def example_cfg_def requests_get_def
      example_env_def example_http_def API_BASE_def py_str_def merge_projects_def Let_def
      print_def example_world_def)

section \<open>Properties of the state file\<close>

lemma fetch_collections_files:
  "fetch_collections L E cfg w = (r, w1) \<Longrightarrow> files w1 = files w"
  by (auto simp: fetch_collections_def requests_get_def
      split: sum.splits prod.splits option.splits if_splits json.splits)

lemma fetch_collections_uid:
  "fetch_collections L E cfg w = (Inr cols, w1) \<Longrightarrow> \<exists>uid. getitem cfg ''user_id'' = Inr uid"
  by (auto simp: fetch_collections_def split: sum.splits)

lemma update3_keys:
  "set (map fst (AList.update c z (AList.update b y (AList.update a x kvs)))) =
     set (map fst kvs) \<union> {a, b, c}"
  by (auto simp: dom_update)

lemma update3_other:
  "k \<notin> {a, b, c} \<Longrightarrow>
   map_of (AList.update c z (AList.update b y (AList.update a x kvs))) k = map_of kvs k"
  by (simp add: update_conv')

lemma update3_assigned:
  "a \<noteq> b \<Longrightarrow> a \<noteq> c \<Longrightarrow> b \<noteq> c \<Longrightarrow>
   map_of (AList.update c z (AList.update b y (AList.update a x kvs))) a = Some x \<and>
   map_of (AList.update c z (AList.update b y (AList.update a x kvs))) b = Some y \<and>
   map_of (AList.update c z (AList.update b y (AList.update a x kvs))) c = Some z"
  by (simp add: update_conv')

lemma sync_collections_to_state_result:
  assumes "fetch_collections L E cfg w = (Inr cols, w1)" and "load_state w = JObj kvs"
    and "getitem cfg ''user_id'' = Inr uid"
    and "kvs' = AList.update ''synced_at'' (JStr (now_iso E))
              (AList.update ''collections'' (JArr cols) (AList.update ''user_id'' uid kvs))"
  shows "sync_collections_to_state L E cfg w =
      (Inr cols,
       print ''[info] Synced {} collection(s) into {} (user_id={}).''
         [AN (int (length cols)), AS STATE_PATH, AJ uid] (save_state (JObj kvs') w1))"
proof -
  have "files w1 = files w"
    using assms(1) by (rule fetch_collections_files)
  then have "load_state w1 = JObj kvs"
    using assms(2) by (simp add: load_state_def)
  then show ?thesis
    unfolding sync_collections_to_state_def assms(1) assms(3) assms(4)
    by (simp add: setitem_def)
qed

text \<open>
  Claim C10.  When the collections have been fetched and the state loaded from the state
  file is an object (for a missing or unreadable file it is the empty object), the
  synchronisation succeeds and the state file then holds the loaded object with the keys
  \<^verbatim>\<open>user_id\<close>, \<^verbatim>\<open>collections\<close> and \<^verbatim>\<open>synced_at\<close> assigned; every other key has the value
  it had, no key is lost, and no file but the state file and its temporary path changes.
\<close>

theorem sync_merges_into_state:
  assumes "fetch_collections L E cfg w = (Inr cols, w1)" and "load_state w = JObj kvs"
  shows "\<exists>uid kvs'.
     getitem cfg ''user_id'' = Inr uid \<and>
     fst (sync_collections_to_state L E cfg w) = Inr cols \<and>
     files (snd (sync_collections_to_state L E cfg w)) STATE_PATH = Content (JObj kvs') \<and>
     kvs' = AList.update ''synced_at'' (JStr (now_iso E))
              (AList.update ''collections'' (JArr cols) (AList.update ''user_id'' uid kvs)) \<and>
     map_of kvs' ''user_id'' = Some uid \<and>
     map_of kvs' ''collections'' = Some (JArr cols) \<and>
     map_of kvs' ''synced_at'' = Some (JStr (now_iso E)) \<and>
     (\<forall>k. k \<notin> {''user_id'', ''collections'', ''synced_at''} \<longrightarrow> map_of kvs' k = map_of kvs k) \<and>
     set (map fst kvs') = set (map fst kvs) \<union> {''user_id'', ''collections'', ''synced_at''} \<and>
     (\<forall>p. p \<noteq> STATE_PATH \<and> p \<noteq> STATE_TMP \<longrightarrow>
        files (snd (sync_collections_to_state L E cfg w)) p = files w p)"
proof -
  from fetch_collections_uid [OF assms(1)] obtain uid where u: "getitem cfg ''user_id'' = Inr uid"
    by blast
  define kvs' where "kvs' = AList.update ''synced_at'' (JStr (now_iso E))
              (AList.update ''collections'' (JArr cols) (AList.update ''user_id'' uid kvs))"
  have f: "files w1 = files w"
    using assms(1) by (rule fetch_collections_files)
  note s = sync_collections_to_state_result [OF assms u kvs'_def]
  have ne: "''user_id'' \<noteq> ''collections''" "''user_id'' \<noteq> ''synced_at''"
    "''collections'' \<noteq> ''synced_at''"
    by simp_all
  have k: "set (map fst kvs') = set (map fst kvs) \<union> {''user_id'', ''collections'', ''synced_at''}"
    unfolding kvs'_def by (rule update3_keys)
  have o: "\<forall>k. k \<notin> {''user_id'', ''collections'', ''synced_at''} \<longrightarrow> map_of kvs' k = map_of kvs k"
  proof (intro allI impI)
    fix k :: string
    assume "k \<notin> {''user_id'', ''collections'', ''synced_at''}"
    then show "map_of kvs' k = map_of kvs k"
      unfolding kvs'_def by (rule update3_other)
  qed
  have m: "map_of kvs' ''user_id'' = Some uid \<and> map_of kvs' ''collections'' = Some (JArr cols) \<and>
    map_of kvs' ''synced_at'' = Some (JStr (now_iso E))"
    unfolding kvs'_def using ne by (rule update3_assigned)
  have w: "files (snd (sync_collections_to_state L E cfg w)) STATE_PATH = Content (JObj kvs')"
    unfolding s by (simp add: print_def save_state_def)
  have p: "\<forall>p. p \<noteq> STATE_PATH \<and> p \<noteq> STATE_TMP \<longrightarrow>
        files (snd (sync_collections_to_state L E cfg w)) p = files w p"
    unfolding s by (simp add: print_def save_state_def f)
  have r: "fst (sync_collections_to_state L E cfg w) = Inr cols"
    unfolding s by simp
  show ?thesis
  proof (intro exI conjI)
    show "getitem cfg ''user_id'' = Inr uid" by (rule u)
    show "fst (sync_collections_to_state L E cfg w) = Inr cols" by (rule r)
    show "files (snd (sync_collections_to_state L E cfg w)) STATE_PATH = Content (JObj kvs')"
      by (rule w)
    show "kvs' = AList.update ''synced_at'' (JStr (now_iso E))
              (AList.update ''collections'' (JArr cols) (AList.update ''user_id'' uid kvs))"
      by (rule kvs'_def)
    show "map_of kvs' ''user_id'' = Some uid"
      by (rule conjunct1 [OF m])
    show "map_of kvs' ''collections'' = Some (JArr cols)"
      by (rule conjunct1 [OF conjunct2 [OF m]])
    show "map_of kvs' ''synced_at'' = Some (JStr (now_iso E))"
      by (rule conjunct2 [OF conjunct2 [OF m]])
    show "\<forall>k. k \<notin> {''user_id'', ''collections'', ''synced_at''} \<longrightarrow> map_of kvs' k = map_of kvs k"
      by (rule o)
    show "set (map fst kvs') = set (map fst kvs) \<union> {''user_id'', ''collections'', ''synced_at''}"
      by (rule k)
    show "\<forall>p. p \<noteq> STATE_PATH \<and> p \<noteq> STATE_TMP \<longrightarrow>
        files (snd (sync_collections_to_state L E cfg w)) p = files w p"
      by (rule p)
  qed
qed

theorem sync_merges_into_state_witness:
  "files (snd (sync_collections_to_state lib0 (example_env JNull) example_cfg (example_world example_modlist [])))
     STATE_PATH =
   Content (JObj [(''note'', JStr ''mine''), (''user_id'', JStr ''U1''),
                  (''collections'', JArr [JObj [(''id'', JStr ''C1''), (''name'', JStr ''Mods'')]]),
                  (''synced_at'', JStr ''2025-11-07T15:24:09+00:00'')]) \<and>
   files (snd (sync_collections_to_state lib0 (example_env JNull) example_cfg (example_world example_modlist [])))
     ''config.json'' = Content example_cfg"
proof -
  let ?cols = "[JObj [(''id'', JStr ''C1''), (''name'', JStr ''Mods'')]]"
  let ?kvs = "[(''note'', JStr ''mine''), (''user_id'', JStr ''old'')]"
  let ?w = "example_world example_modlist []"
  let ?s = "sync_collections_to_state lib0 (example_env JNull) example_cfg ?w"
  have "fst (fetch_collections lib0 (example_env JNull) example_cfg ?w) = Inr ?cols"
    by code_simp
  then obtain w1 where
    f: "fetch_collections lib0 (example_env JNull) example_cfg ?w = (Inr ?cols, w1)"
    by (cases "fetch_collections lib0 (example_env JNull) example_cfg ?w") simp
  have l: "load_state ?w = JObj ?kvs"
    by code_simp
  have u: "getitem example_cfg ''user_id'' = Inr (JStr ''U1'')"
    by code_simp
  have n: "now_iso (example_env JNull) = ''2025-11-07T15:24:09+00:00''"
    by code_simp
  have a: "AList.update ''synced_at'' (JStr ''2025-11-07T15:24:09+00:00'')
        (AList.update ''collections'' (JArr ?cols) (AList.update ''user_id'' (JStr ''U1'') ?kvs)) =
      [(''note'', JStr ''mine''), (''user_id'', JStr ''U1''),
       (''collections'', JArr ?cols), (''synced_at'', JStr ''2025-11-07T15:24:09+00:00'')]"
    by code_simp
  have c: "''config.json'' \<noteq> STATE_PATH \<and> ''config.json'' \<noteq> STATE_TMP"
    by code_simp
  have fc: "files ?w ''config.json'' = Content example_cfg"
    by (simp add: example_world_def example_files_def)
  from sync_merges_into_state [OF f l] u n a
  have s: "files (snd ?s) STATE_PATH =
   Content (JObj [(''note'', JStr ''mine''), (''user_id'', JStr ''U1''),
                  (''collections'', JArr ?cols),
                  (''synced_at'', JStr ''2025-11-07T15:24:09+00:00'')])"
    by auto
  from sync_merges_into_state [OF f l]
  have "\<forall>p. p \<noteq> STATE_PATH \<and> p \<noteq> STATE_TMP \<longrightarrow> files (snd ?s) p = files ?w p"
    by (elim exE conjE)
  with c fc have "files (snd ?s) ''config.json'' = Content example_cfg"
    by simp
  with s show ?thesis
    by (rule conjI)
qed


section \<open>What the parts of a run leave unchanged\<close>

lemma extract_not_Inl [simp]: "extract_modrinth_project_id L url \<noteq> Inl e"
  by (auto simp: extract_modrinth_project_id_def Let_def split: sum.splits dest: urlparse_raises)

lemma extract_from_value_not_Inl [simp]: "extract_from_value L v \<noteq> Inl e"
  by (simp add: extract_from_value_def split: json.splits)

lemma dict_get_not_exit [simp]: "dict_get obj k d \<noteq> Inl (SystemExit n s)"
  by (simp add: dict_get_def split: json.splits)

lemma getitem_not_exit [simp]: "getitem obj k \<noteq> Inl (SystemExit n s)"
  by (simp add: getitem_def split: json.splits option.splits)

lemma setitem_not_exit [simp]: "setitem obj k v \<noteq> Inl (SystemExit n s)"
  by (simp add: setitem_def split: json.splits)

lemma py_iter_not_exit [simp]: "py_iter v \<noteq> Inl (SystemExit n s)"
  by (simp add: py_iter_def split: json.splits)

lemma base_headers_not_exit [simp]: "base_headers cfg \<noteq> Inl (SystemExit n s)"
  by (auto simp: base_headers_def split: sum.splits)

lemma find_by_id_not_exit [simp]: "find_by_id cols wanted \<noteq> Inl (SystemExit n s)"
  by (induction cols) (auto split: sum.splits)

lemma py_in_not_exit [simp]: "py_in k obj \<noteq> Inl (SystemExit n s)"
  by (simp add: py_in_def split: json.splits)

lemma missing_fields_not_exit [simp]: "missing_fields cfg ks \<noteq> Inl (SystemExit n s)"
  by (induction ks) (auto split: sum.splits if_splits)

lemma load_config_not_exit [simp]: "load_config p w \<noteq> Inl (SystemExit n s)"
  by (auto simp: load_config_def split: file_state.splits sum.splits if_splits)

lemma load_modlist_not_exit [simp]: "load_modlist p w \<noteq> Inl (SystemExit n s)"
  by (auto simp: load_modlist_def split: file_state.splits json.splits)

lemma patch_calls_print [simp]: "patch_calls (print t as w) = patch_calls w"
  by (simp add: patch_calls_def print_def)

lemma patch_calls_print_err [simp]: "patch_calls (print_err t as w) = patch_calls w"
  by (simp add: patch_calls_def print_err_def)

lemma patch_calls_save_state [simp]: "patch_calls (save_state st w) = patch_calls w"
  by (simp add: patch_calls_def save_state_def)

lemma py_input_frame:
  "py_input p w = (r, w') \<Longrightarrow>
     patch_calls w' = patch_calls w \<and> (\<forall>n s. r \<noteq> Inl (SystemExit n s))"
  by (auto simp: patch_calls_def py_input_def split: list.splits)

lemma requests_get_frame:
  "requests_get E url h w = (r, w') \<Longrightarrow>
     patch_calls w' = patch_calls w \<and> (\<forall>n s. r \<noteq> Inl (SystemExit n s))"
  by (auto simp: patch_calls_def requests_get_def split: option.splits)

lemma prompt_loop_frame:
  "prompt_loop L w = (r, w') \<Longrightarrow>
     patch_calls w' = patch_calls w \<and>
     (\<forall>n s. r = Inl (SystemExit n s) \<longrightarrow> n = 1 \<and> s = Resolver_quit)"
proof (induction "length (stdin w)" arbitrary: w r w' rule: less_induct)
  case less
  from less.prems show ?case
    apply (subst (asm) prompt_loop.simps)
    apply (auto simp: py_input_def print_def patch_calls_def
        split: list.splits sum.splits option.splits if_splits
        dest!: less.hyps [rotated])
    done
qed

lemma prompt_for_modrinth_url_frame:
  "prompt_for_modrinth_url L entry w = (r, w') \<Longrightarrow>
     patch_calls w' = patch_calls w \<and>
     (\<forall>n s. r = Inl (SystemExit n s) \<longrightarrow> n = 1 \<and> s = Resolver_quit)"
  by (auto simp: prompt_for_modrinth_url_def split: sum.splits if_splits
      dest!: prompt_loop_frame)

lemma collect_step_frame:
  "collect_step L entry ids sk w = (r, w') \<Longrightarrow>
     patch_calls w' = patch_calls w \<and>
     (\<forall>n s. r = Inl (SystemExit n s) \<longrightarrow> n = 1 \<and> s = Resolver_quit)"
  by (auto simp: collect_step_def split: sum.splits prod.splits option.splits if_splits
      dest!: prompt_for_modrinth_url_frame)

lemma collect_loop_frame:
  "collect_loop L entries ids sk w = (r, w') \<Longrightarrow>
     patch_calls w' = patch_calls w \<and>
     (\<forall>n s. r = Inl (SystemExit n s) \<longrightarrow> n = 1 \<and> s = Resolver_quit)"
proof (induction entries arbitrary: ids sk w)
  case Nil
  then show ?case by auto
next
  case (Cons entry entries)
  obtain r1 w1 where s: "collect_step L entry ids sk w = (r1, w1)"
    by (cases "collect_step L entry ids sk w")
  note f = collect_step_frame [OF s]
  show ?case
  proof (cases r1)
    case (Inl e)
    with s Cons.prems f show ?thesis by auto
  next
    case (Inr p)
    obtain ids1 sk1 where p: "p = (ids1, sk1)" by (cases p)
    with Inr s Cons.prems have "collect_loop L entries ids1 sk1 w1 = (r, w')"
      by simp
    from Cons.IH [OF this] f show ?thesis by simp
  qed
qed

lemma fetch_collections_frame:
  "fetch_collections L E cfg w = (r, w') \<Longrightarrow>
     patch_calls w' = patch_calls w \<and> (\<forall>n s. r \<noteq> Inl (SystemExit n s))"
  by (auto simp: fetch_collections_def
      split: sum.splits prod.splits option.splits if_splits json.splits
      dest!: requests_get_frame)

lemma sync_collections_to_state_frame:
  "sync_collections_to_state L E cfg w = (r, w') \<Longrightarrow>
     patch_calls w' = patch_calls w \<and> (\<forall>n s. r \<noteq> Inl (SystemExit n s))"
  by (auto simp: sync_collections_to_state_def
      split: sum.splits prod.splits
      dest!: fetch_collections_frame)

lemma main_collections_frame:
  "main_collections L E cfg w = (r, w') \<Longrightarrow>
     patch_calls w' = patch_calls w \<and> (\<forall>n s. r = Inl (SystemExit n s) \<longrightarrow> n = 1 \<and> s \<noteq> Confirm_declined)"
  by (auto simp: main_collections_def
      split: sum.splits prod.splits if_splits
      dest!: sync_collections_to_state_frame)

lemma list_collections_frame:
  "list_collections cols idx w = (r, w') \<Longrightarrow>
     patch_calls w' = patch_calls w \<and> (\<forall>n s. r \<noteq> Inl (SystemExit n s))"
proof (induction cols arbitrary: idx w)
  case Nil
  then show ?case by auto
next
  case (Cons col cols)
  from Cons.prems show ?case
    by (auto split: sum.splits if_splits dest!: Cons.IH)
qed

lemma choose_loop_frame:
  "choose_loop cols w = (r, w') \<Longrightarrow>
     patch_calls w' = patch_calls w \<and>
     (\<forall>n s. r = Inl (SystemExit n s) \<longrightarrow> n = 1 \<and> s = Picker_quit)"
proof (induction "length (stdin w)" arbitrary: w r w' rule: less_induct)
  case less
  from less.prems show ?case
    apply (subst (asm) choose_loop.simps)
    apply (auto simp: py_input_def print_def patch_calls_def
        split: list.splits sum.splits option.splits if_splits
        dest!: less.hyps [rotated])
    done
qed

lemma choose_explicit_frame:
  "choose_explicit collections wanted w = (r, w') \<Longrightarrow>
     patch_calls w' = patch_calls w \<and> (\<forall>n s. r \<noteq> Inl (SystemExit n s))"
  by (auto simp: choose_explicit_def split: sum.splits option.splits)

lemma choose_interactive_frame:
  "choose_interactive collections w = (r, w') \<Longrightarrow>
     patch_calls w' = patch_calls w \<and>
     (\<forall>n s. r = Inl (SystemExit n s) \<longrightarrow> n = 1 \<and> s \<noteq> Confirm_declined)"
  by (auto simp: choose_interactive_def split: sum.splits prod.splits if_splits
      dest!: choose_loop_frame list_collections_frame)

lemma choose_collection_frame:
  "choose_collection collections explicit_id w = (r, w') \<Longrightarrow>
     patch_calls w' = patch_calls w \<and>
     (\<forall>n s. r = Inl (SystemExit n s) \<longrightarrow> n = 1 \<and> s \<noteq> Confirm_declined)"
  by (auto simp: choose_collection_def split: option.splits if_splits
      dest!: choose_explicit_frame choose_interactive_frame)

lemma main_config_frame:
  "main_config a w = (r, w') \<Longrightarrow>
     patch_calls w' = patch_calls w \<and>
     (\<forall>n s. r = Inl (SystemExit n s) \<longrightarrow> n = 1 \<and> s \<noteq> Confirm_declined)"
  by (auto simp: main_config_def split: sum.splits if_splits)

lemma main_modlist_frame:
  "main_modlist L a w = (r, w') \<Longrightarrow>
     patch_calls w' = patch_calls w \<and>
     (\<forall>n s. r = Inl (SystemExit n s) \<longrightarrow> n = 1 \<and> s \<noteq> Confirm_declined)"
  by (auto simp: main_modlist_def collect_project_ids_from_modlist_def
      split: sum.splits prod.splits if_splits
      dest!: collect_loop_frame)

lemma fetch_collection_details_frame:
  "fetch_collection_details L E cfg cid w = (r, w') \<Longrightarrow>
     patch_calls w' = patch_calls w \<and> (\<forall>n s. r \<noteq> Inl (SystemExit n s))"
  by (auto simp: fetch_collection_details_def
      split: sum.splits prod.splits option.splits if_splits
      dest!: requests_get_frame)

lemma existing_projects_of_frame:
  "existing_projects_of coll w = (r, w') \<Longrightarrow>
     patch_calls w' = patch_calls w \<and> (\<forall>n s. r \<noteq> Inl (SystemExit n s))"
  by (auto simp: existing_projects_of_def split: sum.splits json.splits)

lemma main_merge_frame:
  "main_merge L E cfg cid ids sk w = (r, w') \<Longrightarrow>
     patch_calls w' = patch_calls w \<and> (\<forall>n s. r \<noteq> Inl (SystemExit n s))"
  by (auto simp: main_merge_def split: sum.splits prod.splits
      dest!: fetch_collection_details_frame existing_projects_of_frame)

lemma main_confirm_frame:
  "main_confirm cid final w = (r, w') \<Longrightarrow>
     patch_calls w' = patch_calls w \<and>
     (\<forall>n s. r = Inl (SystemExit n s) \<longrightarrow> n = 0 \<and> s = Confirm_declined)"
  by (auto simp: main_confirm_def split: sum.splits prod.splits if_splits
      dest!: py_input_frame)

section \<open>Properties of the whole run\<close>

lemma main_prepare_frame:
  "main_prepare L E a w = (r, w') \<Longrightarrow>
     patch_calls w' = patch_calls w \<and>
     (\<forall>n s. r = Inl (SystemExit n s) \<longrightarrow> n = (if s = Confirm_declined then 0 else 1))"
  by (auto simp: main_prepare_def split: sum.splits prod.splits
      dest!: main_config_frame main_collections_frame choose_collection_frame
        main_modlist_frame main_merge_frame main_confirm_frame)

lemma patch_collection_projects_frame:
  "patch_collection_projects L E cfg cid ids dry w = (r, w') \<Longrightarrow>
     (\<forall>n s. r \<noteq> Inl (SystemExit n s))"
  by (auto simp: patch_collection_projects_def Let_def requests_patch_def
      split: sum.splits prod.splits option.splits if_splits)

lemma patch_collection_projects_dry:
  "patch_collection_projects L E cfg cid ids True w =
     (Inr (),
      print ''[dry-run] Skipping PATCH request.'' []
        (print ''[info] PATCH payload for collection {}: {}''
           [AJ cid, AJ (JObj [(''new_projects'', JArr (map JStr ids))])] w))"
  by (simp add: patch_collection_projects_def Let_def)

lemma config_dry_run: "config (a\<lparr>dry_run := d\<rparr>) = config a"
  by simp

lemma modlist_dry_run: "modlist (a\<lparr>dry_run := d\<rparr>) = modlist a"
  by simp

lemma main_config_dry_run: "main_config (a\<lparr>dry_run := d\<rparr>) w = main_config a w"
  unfolding main_config_def config_dry_run by (rule refl)

lemma main_modlist_dry_run: "main_modlist L (a\<lparr>dry_run := d\<rparr>) w = main_modlist L a w"
  unfolding main_modlist_def modlist_dry_run by (rule refl)

lemma collection_id_dry_run: "collection_id (a\<lparr>dry_run := d\<rparr>) = collection_id a"
  by simp

lemma main_prepare_dry_run:
  "main_prepare L E (a\<lparr>dry_run := d\<rparr>) w = main_prepare L E a w"
  unfolding main_prepare_def main_config_dry_run main_modlist_dry_run collection_id_dry_run
  by (rule refl)

lemma main_Inl:
  "main_prepare L E a w = (Inl e, w1) \<Longrightarrow> main L E a w = (Inl e, w1)"
  by (simp add: main_def)

lemma main_Inr:
  "main_prepare L E a w = (Inr (cfg, cid, final), w1) \<Longrightarrow>
   main L E a w = patch_collection_projects L E cfg cid final (dry_run a) w1"
  by (simp add: main_def)

lemma choose_loop_quit:
  "stdin w = line # rest \<Longrightarrow> str_lower (str_strip line) \<in> {''q'', ''quit''} \<Longrightarrow>
     fst (choose_loop cols w) = Inl (SystemExit 1 Picker_quit)"
  by (subst choose_loop.simps) (simp add: py_input_def)

lemma prompt_loop_quit:
  "stdin w = line # rest \<Longrightarrow> str_lower (str_strip line) \<in> {''q'', ''quit''} \<Longrightarrow>
     fst (prompt_loop L w) = Inl (SystemExit 1 Resolver_quit)"
  by (subst prompt_loop.simps) (simp add: py_input_def)

lemma main_confirm_declined:
  "stdin w = line # rest \<Longrightarrow> str_lower (str_strip line) \<notin> {''y'', ''yes''} \<Longrightarrow>
     fst (main_confirm cid final w) = Inl (SystemExit 0 Confirm_declined)"
  by (simp add: main_confirm_def py_input_def)

lemma main_exit_frame:
  assumes "main L E a w = (Inl (SystemExit n s), w')"
  shows "patch_calls w' = patch_calls w \<and> n = (if s = Confirm_declined then 0 else 1)"
proof -
  obtain r1 w1 where p: "main_prepare L E a w = (r1, w1)"
    by (cases "main_prepare L E a w")
  show ?thesis
  proof (cases r1)
    case (Inl e)
    with p assms main_Inl [of L E a w e w1] have "e = SystemExit n s" "w' = w1"
      by simp_all
    with Inl p main_prepare_frame [OF p] show ?thesis
      by simp
  next
    case (Inr x)
    obtain cfg cid final where "x = (cfg, cid, final)"
      by (cases x)
    with Inr p assms main_Inr [of L E a w cfg cid final w1]
    have "patch_collection_projects L E cfg cid final (dry_run a) w1 = (Inl (SystemExit n s), w')"
      by simp
    from patch_collection_projects_frame [OF this] show ?thesis
      by simp
  qed
qed

text \<open>
  Claim C3, as amended.  A run that ends by \<^verbatim>\<open>sys.exit\<close> has issued no \<^verbatim>\<open>PATCH\<close> request,
  and its exit status is 0 when the exit is the declined final confirmation and 1 at
  every other exit, in particular at the operator's quit in the interactive resolver and
  in the collection picker.  The answers \<^verbatim>\<open>q\<close> and \<^verbatim>\<open>quit\<close> end the resolver and the picker
  with these exits, and any answer to the final confirmation other than \<^verbatim>\<open>y\<close> or \<^verbatim>\<open>yes\<close>
  ends the run with exit status 0.
\<close>

theorem operator_abort_no_patch:
  "(main L E a w = (Inl (SystemExit n s), w') \<longrightarrow>
      patch_calls w' = patch_calls w \<and>
      exit_status (Inl (SystemExit n s)) = (if s = Confirm_declined then 0 else 1)) \<and>
   (stdin w = line # rest \<and> str_lower (str_strip line) \<in> {''q'', ''quit''} \<longrightarrow>
      fst (prompt_loop L w) = Inl (SystemExit 1 Resolver_quit) \<and>
      fst (choose_loop cols w) = Inl (SystemExit 1 Picker_quit)) \<and>
   (stdin w = line # rest \<and> str_lower (str_strip line) \<notin> {''y'', ''yes''} \<longrightarrow>
      fst (main_confirm cid final w) = Inl (SystemExit 0 Confirm_declined))"
  using main_exit_frame [of L E a w n s w'] prompt_loop_quit [of w line rest L]
    choose_loop_quit [of w line rest cols] main_confirm_declined [of w line rest cid final]
  by simp

theorem operator_abort_no_patch_witness:
  "fst (main lib0 (example_env (JArr [])) (example_args False) (example_world example_modlist [''1'', ''n'']))
     = Inl (SystemExit 0 Confirm_declined) \<and>
   patch_calls (snd (main lib0 (example_env (JArr [])) (example_args False)
                       (example_world example_modlist [''1'', ''n''])))
     = patch_calls (example_world example_modlist [''1'', ''n'']) \<and>
   fst (prompt_loop lib0 (example_world [] ['' Quit'', ''x''])) = Inl (SystemExit 1 Resolver_quit) \<and>
   fst (choose_loop [] (example_world [] ['' Quit'', ''x''])) = Inl (SystemExit 1 Picker_quit) \<and>
   fst (main_confirm (JStr ''C1'') [''a''] (example_world [] [''maybe''])) =
     Inl (SystemExit 0 Confirm_declined)"
proof -
  let ?E = "example_env (JArr [])"
  let ?w = "example_world example_modlist [''1'', ''n'']"
  let ?m = "main lib0 ?E (example_args False) ?w"
  let ?wq = "example_world [] ['' Quit'', ''x'']"
  let ?wn = "example_world [] [''maybe'']"
  have h: "fst ?m = Inl (SystemExit 0 Confirm_declined)"
    by code_simp
  then have m: "?m = (Inl (SystemExit 0 Confirm_declined), snd ?m)"
    by (cases ?m) simp
  have q: "stdin ?wq = '' Quit'' # [''x''] \<and> str_lower (str_strip '' Quit'') \<in> {''q'', ''quit''}"
    by code_simp
  have n: "stdin ?wn = ''maybe'' # [] \<and> str_lower (str_strip ''maybe'') \<notin> {''y'', ''yes''}"
    by code_simp
  from m operator_abort_no_patch [of lib0 ?E "example_args False" ?w 0 Confirm_declined "snd ?m"]
  have a: "patch_calls (snd ?m) = patch_calls ?w"
    by blast
  from q operator_abort_no_patch [where w = ?wq and line = "'' Quit''" and rest = "[''x'']"
      and L = lib0 and cols = "[]"]
  have b: "fst (prompt_loop lib0 ?wq) = Inl (SystemExit 1 Resolver_quit) \<and>
      fst (choose_loop [] ?wq) = Inl (SystemExit 1 Picker_quit)"
    by blast
  from n operator_abort_no_patch [where w = ?wn and line = "''maybe''" and rest = "[]"
      and cid = "JStr ''C1''" and final = "[''a'']"]
  have c: "fst (main_confirm (JStr ''C1'') [''a''] ?wn) = Inl (SystemExit 0 Confirm_declined)"
    by blast
  from h a b c show ?thesis
    by blast
qed

text \<open>
  The claim as it was written has exit status 0 for every abort.  The operator's quit at
  the collection picker and at the interactive resolver ends the run with status 1.
\<close>

theorem operator_abort_status_counterexample:
  "fst (main lib0 (example_env (JArr [])) (example_args False) (example_world example_modlist [''q'']))
     = Inl (SystemExit 1 Picker_quit) \<and>
   exit_status (fst (main lib0 (example_env (JArr [])) (example_args False)
                       (example_world example_modlist [''q''])))
     = 1 \<and>
   fst (main lib0 (example_env (JArr [])) (example_args False) (example_world unresolved_modlist [''1'', ''q'']))
     = Inl (SystemExit 1 Resolver_quit) \<and>
   exit_status (fst (main lib0 (example_env (JArr [])) (example_args False)
                       (example_world unresolved_modlist [''1'', ''q''])))
     = 1"
  by code_simp

text \<open>
  Claim C7.  Everything \<^verbatim>\<open>main\<close> does before the update step is the same with and
  without the dry-run flag.  With the flag the run adds no \<^verbatim>\<open>PATCH\<close> request to those
  issued: when the steps before the update fail both runs fail alike, and when they
  succeed the dry run prints the payload and the skip message, issues no request and
  returns, so that the exit status is 0, where the normal run goes on to the update call.
\<close>

theorem dry_run_no_patch:
  "main_prepare L E (a\<lparr>dry_run := True\<rparr>) w = main_prepare L E (a\<lparr>dry_run := False\<rparr>) w \<and>
   patch_calls (snd (main L E (a\<lparr>dry_run := True\<rparr>) w)) = patch_calls w \<and>
   (\<forall>e w1. main_prepare L E a w = (Inl e, w1) \<longrightarrow>
      main L E (a\<lparr>dry_run := True\<rparr>) w = (Inl e, w1) \<and>
      main L E (a\<lparr>dry_run := False\<rparr>) w = (Inl e, w1)) \<and>
   (\<forall>cfg cid final w1. main_prepare L E a w = (Inr (cfg, cid, final), w1) \<longrightarrow>
      main L E (a\<lparr>dry_run := True\<rparr>) w =
        (Inr (),
         print ''[dry-run] Skipping PATCH request.'' []
           (print ''[info] PATCH payload for collection {}: {}''
              [AJ cid, AJ (JObj [(''new_projects'', JArr (map JStr final))])] w1)) \<and>
      exit_status (fst (main L E (a\<lparr>dry_run := True\<rparr>) w)) = 0 \<and>
      http_log (snd (main L E (a\<lparr>dry_run := True\<rparr>) w)) = http_log w1 \<and>
      main L E (a\<lparr>dry_run := False\<rparr>) w =
        patch_collection_projects L E cfg cid final False w1)"
proof (intro conjI allI impI)
  show "main_prepare L E (a\<lparr>dry_run := True\<rparr>) w = main_prepare L E (a\<lparr>dry_run := False\<rparr>) w"
    by (simp add: main_prepare_dry_run)
next
  obtain r1 w1 where p: "main_prepare L E a w = (r1, w1)"
    by (cases "main_prepare L E a w")
  then have p': "main_prepare L E (a\<lparr>dry_run := True\<rparr>) w = (r1, w1)"
    by (simp add: main_prepare_dry_run)
  show "patch_calls (snd (main L E (a\<lparr>dry_run := True\<rparr>) w)) = patch_calls w"
  proof (cases r1)
    case (Inl e)
    with p' main_prepare_frame [OF p] show ?thesis
      by (simp add: main_def)
  next
    case (Inr x)
    obtain cfg cid final where "x = (cfg, cid, final)"
      by (cases x)
    with Inr p' main_prepare_frame [OF p] show ?thesis
      by (simp add: main_def patch_collection_projects_dry)
  qed
next
  fix e w1
  assume "main_prepare L E a w = (Inl e, w1)"
  then have "main_prepare L E (a\<lparr>dry_run := True\<rparr>) w = (Inl e, w1)"
    "main_prepare L E (a\<lparr>dry_run := False\<rparr>) w = (Inl e, w1)"
    by (simp_all add: main_prepare_dry_run)
  then show "main L E (a\<lparr>dry_run := True\<rparr>) w = (Inl e, w1)"
    "main L E (a\<lparr>dry_run := False\<rparr>) w = (Inl e, w1)"
    by (simp_all add: main_def)
next
  fix cfg cid final w1
  assume "main_prepare L E a w = (Inr (cfg, cid, final), w1)"
  then have t: "main_prepare L E (a\<lparr>dry_run := True\<rparr>) w = (Inr (cfg, cid, final), w1)"
    and f: "main_prepare L E (a\<lparr>dry_run := False\<rparr>) w = (Inr (cfg, cid, final), w1)"
    by (simp_all add: main_prepare_dry_run)
  from t show m: "main L E (a\<lparr>dry_run := True\<rparr>) w =
        (Inr (),
         print ''[dry-run] Skipping PATCH request.'' []
           (print ''[info] PATCH payload for collection {}: {}''
              [AJ cid, AJ (JObj [(''new_projects'', JArr (map JStr final))])] w1))"
    by (simp add: main_def patch_collection_projects_dry)
  from m show "exit_status (fst (main L E (a\<lparr>dry_run := True\<rparr>) w)) = 0"
    by simp
  from m show "http_log (snd (main L E (a\<lparr>dry_run := True\<rparr>) w)) = http_log w1"
    by (simp add: print_def)
  from f show "main L E (a\<lparr>dry_run := False\<rparr>) w =
        patch_collection_projects L E cfg cid final False w1"
    by (simp add: main_def)
qed

theorem dry_run_no_patch_witness:
  "fst (main lib0 (example_env (JArr [JStr ''a'', JStr ''c''])) (example_args True)
         (example_world example_modlist [''1'', ''y''])) = Inr () \<and>
   exit_status (fst (main lib0 (example_env (JArr [JStr ''a'', JStr ''c''])) (example_args True)
         (example_world example_modlist [''1'', ''y'']))) = 0 \<and>
   patch_calls (snd (main lib0 (example_env (JArr [JStr ''a'', JStr ''c''])) (example_args True)
         (example_world example_modlist [''1'', ''y'']))) = [] \<and>
   patch_calls (snd (main lib0 (example_env (JArr [JStr ''a'', JStr ''c''])) (example_args False)
         (example_world example_modlist [''1'', ''y''])))
     = [PATCH ''https://api.modrinth.com/v3/collection/C1''
          [(''Authorization'', JStr ''mrp_x''), (''User-Agent'', JStr ''me/tool''),
           (''Accept'', JStr ''application/json''), (''Content-Type'', JStr ''application/json'')]
          (JObj [(''new_projects'', JArr [JStr ''a'', JStr ''b'', JStr ''c''])])] \<and>
   fst (main lib0 (example_env (JArr [JStr ''a'', JStr ''c''])) (example_args True)
         (example_world example_modlist [''7'', ''q''])) = Inl (SystemExit 1 Picker_quit) \<and>
   main lib0 (example_env (JArr [JStr ''a'', JStr ''c''])) (example_args True)
         (example_world example_modlist [''7'', ''q'']) =
   main lib0 (example_env (JArr [JStr ''a'', JStr ''c''])) (example_args False)
         (example_world example_modlist [''7'', ''q''])"
proof -
  let ?E = "example_env (JArr [JStr ''a'', JStr ''c''])"
  let ?w = "example_world example_modlist [''1'', ''y'']"
  let ?wq = "example_world example_modlist [''7'', ''q'']"
  let ?p = "main_prepare lib0 ?E (example_args False) ?w"
  let ?pq = "main_prepare lib0 ?E (example_args False) ?wq"
  have a: "(example_args False)\<lparr>dry_run := True\<rparr> = example_args True"
    "(example_args False)\<lparr>dry_run := False\<rparr> = example_args False"
    by (simp_all add: example_args_def)
  have e: "patch_calls ?w = []"
    by code_simp
  have "fst ?p = Inr (example_cfg, JStr ''C1'', [''a'', ''b'', ''c''])"
    by code_simp
  then have p: "?p = (Inr (example_cfg, JStr ''C1'', [''a'', ''b'', ''c'']), snd ?p)"
    by (cases ?p) simp
  have "fst ?pq = Inl (SystemExit 1 Picker_quit)"
    by code_simp
  then have pq: "?pq = (Inl (SystemExit 1 Picker_quit), snd ?pq)"
    by (cases ?pq) simp
  have n: "patch_calls (snd (main lib0 ?E (example_args False) ?w))
     = [PATCH ''https://api.modrinth.com/v3/collection/C1''
          [(''Authorization'', JStr ''mrp_x''), (''User-Agent'', JStr ''me/tool''),
           (''Accept'', JStr ''application/json''), (''Content-Type'', JStr ''application/json'')]
          (JObj [(''new_projects'', JArr [JStr ''a'', JStr ''b'', JStr ''c''])])]"
    by code_simp
  note t = dry_run_no_patch [of lib0 ?E "example_args False" ?w, unfolded a]
  note tq = dry_run_no_patch [of lib0 ?E "example_args False" ?wq, unfolded a]
  from t e have c: "patch_calls (snd (main lib0 ?E (example_args True) ?w)) = []"
    by simp
  from t p have r: "main lib0 ?E (example_args True) ?w =
        (Inr (),
         print ''[dry-run] Skipping PATCH request.'' []
           (print ''[info] PATCH payload for collection {}: {}''
              [AJ (JStr ''C1''), AJ (JObj [(''new_projects'', JArr (map JStr [''a'', ''b'', ''c'']))])]
              (snd ?p)))"
    and x: "exit_status (fst (main lib0 ?E (example_args True) ?w)) = 0"
    by blast+
  from tq pq have q: "main lib0 ?E (example_args True) ?wq = (Inl (SystemExit 1 Picker_quit), snd ?pq)"
    "main lib0 ?E (example_args False) ?wq = (Inl (SystemExit 1 Picker_quit), snd ?pq)"
    by blast+
  from r have "fst (main lib0 ?E (example_args True) ?w) = Inr ()"
    by simp
  with x c n q show ?thesis
    by simp
qed


end
